theory Spec2Isabelle
  imports Complex_Main
begin

section \<open>Values, errors and array primitives\<close>

text \<open>
  The notebook computes with NumPy arrays of floats. Numbers are modelled as \<open>real\<close>
  (the specification's "standard real matrix arithmetic"); rounding, overflow and NaN
  are outside the model. A two-dimensional array is the list of its rows, a
  one-dimensional array (a row \<open>a[i]\<close> of a column vector) is a list of numbers.
  An array with zero rows carries no column count in this representation; every
  theorem below that depends on shapes assumes positive layer sizes.

  Every exception the Python code can raise is a constructor of \<open>error\<close>. The last
  three constructors are the error names of the specification; no path of the source
  raises them.
\<close>

datatype error =
    IndexError | ValueError | TypeError | ZeroDivisionError | KeyError | AttributeError
  | ConfigurationError | ShapeMismatchError | EmptyDatasetError

type_synonym vec = "real list"
type_synonym mat = "real list list"

definition ebind :: "error + 'a \<Rightarrow> ('a \<Rightarrow> error + 'b) \<Rightarrow> error + 'b" where
  "ebind r f = (case r of Inl e \<Rightarrow> Inl e | Inr v \<Rightarrow> f v)"

text \<open>Python subscription \<open>xs[i]\<close> on a list or on the first axis of an array.\<close>

definition py_get :: "'a list \<Rightarrow> int \<Rightarrow> error + 'a" where
  "py_get xs i =
     (if 0 \<le> i \<and> i < int (length xs) then Inr (xs ! nat i)
      else if i < 0 \<and> - int (length xs) \<le> i then Inr (xs ! nat (int (length xs) + i))
      else Inl IndexError)"

text \<open>
  Elementwise binary operators broadcast: two axes are compatible when their lengths are
  equal or one of them is 1. \<open>bc1\<close> is the rule on one-dimensional arrays, \<open>bc2\<close> on
  two-dimensional ones.
\<close>

definition bc1 :: "(real \<Rightarrow> real \<Rightarrow> real) \<Rightarrow> vec \<Rightarrow> vec \<Rightarrow> error + vec" where
  "bc1 f xs ys =
     (if length xs = length ys then Inr (map2 f xs ys)
      else if length xs = 1 then Inr (map (f (hd xs)) ys)
      else if length ys = 1 then Inr (map (\<lambda>x. f x (hd ys)) xs)
      else Inl ValueError)"

fun collect :: "(error + 'a) list \<Rightarrow> error + 'a list" where
  "collect [] = Inr []"
| "collect (r # rs) = ebind r (\<lambda>v. ebind (collect rs) (\<lambda>vs. Inr (v # vs)))"

definition bc2 :: "(real \<Rightarrow> real \<Rightarrow> real) \<Rightarrow> mat \<Rightarrow> mat \<Rightarrow> error + mat" where
  "bc2 f a b =
     (if length a = length b then collect (map2 (bc1 f) a b)
      else if length a = 1 then collect (map (bc1 f (hd a)) b)
      else if length b = 1 then collect (map (\<lambda>r. bc1 f r (hd b)) a)
      else Inl ValueError)"

definition ncols :: "mat \<Rightarrow> nat" where
  "ncols m = (case m of [] \<Rightarrow> 0 | r # _ \<Rightarrow> length r)"

definition col :: "mat \<Rightarrow> nat \<Rightarrow> vec" where
  "col m j = map (\<lambda>r. r ! j) m"

definition dot :: "vec \<Rightarrow> vec \<Rightarrow> real" where
  "dot xs ys = sum_list (map2 (*) xs ys)"

text \<open>The matrix product and the transpose as total functions on lists of rows.\<close>

definition matmul :: "mat \<Rightarrow> mat \<Rightarrow> mat" where
  "matmul a b = map (\<lambda>r. map (\<lambda>j. dot r (col b j)) [0..<ncols b]) a"

definition transpose_m :: "mat \<Rightarrow> mat" where
  "transpose_m a = map (col a) [0..<ncols a]"

definition ew :: "(real \<Rightarrow> real \<Rightarrow> real) \<Rightarrow> mat \<Rightarrow> mat \<Rightarrow> mat" where
  "ew f a b = map2 (map2 f) a b"

definition smul :: "real \<Rightarrow> mat \<Rightarrow> mat" where
  "smul c m = map (map ((*) c)) m"

text \<open>
  \<open>a @ b\<close> raises ValueError unless the column count of \<open>a\<close> is the row count of \<open>b\<close>.
  An in-place operator \<open>a -= b\<close> raises ValueError unless the broadcast result has the
  shape of \<open>a\<close>.
\<close>

definition np_matmul :: "mat \<Rightarrow> mat \<Rightarrow> error + mat" where
  "np_matmul a b = (if ncols a = length b then Inr (matmul a b) else Inl ValueError)"

definition np_isub :: "mat \<Rightarrow> mat \<Rightarrow> error + mat" where
  "np_isub a b =
     ebind (bc2 (-) a b) (\<lambda>r.
       if length r = length a \<and> ncols r = ncols a then Inr r else Inl ValueError)"

definition is_mat :: "nat \<Rightarrow> nat \<Rightarrow> mat \<Rightarrow> bool" where
  "is_mat r c m \<longleftrightarrow> length m = r \<and> list_all (\<lambda>row. length row = c) m"

section \<open>Activation and per-example loss\<close>

text \<open>
  \<^verbatim>\<open>
  def sigmoid(z):   return 1.0/(1.0+np.exp(-z))
  def d_sigmoid(z): return sigmoid(z)*(1.0 - sigmoid(z))
  def mse(a, y):    return .5*sum((a[i] - y[i])**2 for i in range(10))[0]
  \<close>
  In \<open>mse\<close> the built-in \<open>sum\<close> starts from the integer 0 and adds the ten
  one-dimensional rows \<open>(a[i] - y[i])**2\<close> in turn; adding the scalar 0 to a row gives
  what broadcasting the one-element array \<open>[0]\<close> gives, which is how the accumulator
  starts here. The subscription \<open>[0]\<close> is applied to the sum before the product with .5.
\<close>

definition sigmoid :: "mat \<Rightarrow> mat" where
  "sigmoid z = map (map (\<lambda>v. 1 / (1 + exp (- v)))) z"

definition d_sigmoid :: "mat \<Rightarrow> mat" where
  "d_sigmoid z = ew (*) (sigmoid z) (map (map (\<lambda>s. 1 - s)) (sigmoid z))"

fun mse_loop :: "mat \<Rightarrow> mat \<Rightarrow> nat list \<Rightarrow> vec \<Rightarrow> error + vec" where
  "mse_loop a y [] acc = Inr acc"
| "mse_loop a y (i # is) acc =
     ebind (py_get a (int i)) (\<lambda>ai.
     ebind (py_get y (int i)) (\<lambda>yi.
     ebind (bc1 (-) ai yi) (\<lambda>d.
     ebind (bc1 (+) acc (map (\<lambda>v. v ^ 2) d)) (\<lambda>acc'.
     mse_loop a y is acc'))))"

definition mse :: "mat \<Rightarrow> mat \<Rightarrow> error + real" where
  "mse a y =
     ebind (mse_loop a y [0..<10] [0]) (\<lambda>s.
     ebind (py_get s 0) (\<lambda>s0. Inr (0.5 * s0)))"

section \<open>Parameter initializer\<close>

text \<open>
  \<^verbatim>\<open>
  def initialize_weights(layers = [784, 60, 60, 10]):
      W = [[0.0]]
      B = [[0.0]]
      for i in range(1, len(layers)):
          w_temp = np.random.randn(layers[i], layers[i-1])*np.sqrt(2/layers[i-1])
          b_temp = np.random.randn(layers[i], 1)*np.sqrt(2/layers[i-1])
          W.append(w_temp)
          B.append(b_temp)
      return W, B
  \<close>
  The random generator is an explicit stream of draws \<open>g\<close> with a read position that
  is passed along: \<open>randn(m, n)\<close> consumes \<open>m * n\<close> draws, row by row, and raises
  ValueError on a negative dimension. Nothing is assumed about the distribution of the
  draws. The entry at index 0 of \<open>W\<close> and \<open>B\<close> is the Python list \<open>[[0.0]]\<close>; no code
  path applies an operator to it, and it is held here as the 1 x 1 zero matrix.
  The quotient \<open>2/layers[i-1]\<close> raises ZeroDivisionError for a zero size; it is
  evaluated after the call of \<open>randn\<close> in the same expression, so a negative size never
  reaches the square root.
\<close>

type_synonym rng = "nat \<Rightarrow> real"

definition randn :: "rng \<Rightarrow> nat \<Rightarrow> int \<Rightarrow> int \<Rightarrow> error + mat \<times> nat" where
  "randn g p m n =
     (if m < 0 \<or> n < 0 then Inl ValueError
      else Inr (map (\<lambda>r. map (\<lambda>c. g (p + r * nat n + c)) [0..<nat n]) [0..<nat m],
                p + nat m * nat n))"

definition he_scale :: "int \<Rightarrow> error + real" where
  "he_scale n = (if n = 0 then Inl ZeroDivisionError else Inr (sqrt (2 / real_of_int n)))"

definition mscale :: "mat \<Rightarrow> real \<Rightarrow> mat" where
  "mscale m c = map (map (\<lambda>v. v * c)) m"

fun init_loop ::
  "rng \<Rightarrow> int list \<Rightarrow> nat list \<Rightarrow> mat list \<times> mat list \<times> nat \<Rightarrow> error + mat list \<times> mat list \<times> nat"
where
  "init_loop g layers [] (W, B, p) = Inr (W, B, p)"
| "init_loop g layers (i # is) (W, B, p) =
     ebind (py_get layers (int i)) (\<lambda>li.
     ebind (py_get layers (int i - 1)) (\<lambda>lp.
     ebind (randn g p li lp) (\<lambda>(w0, p1).
     ebind (he_scale lp) (\<lambda>sw.
     ebind (randn g p1 li 1) (\<lambda>(b0, p2).
     ebind (he_scale lp) (\<lambda>sb.
     init_loop g layers is (W @ [mscale w0 sw], B @ [mscale b0 sb], p2)))))))"

definition initialize_weights :: "rng \<Rightarrow> nat \<Rightarrow> int list \<Rightarrow> error + mat list \<times> mat list \<times> nat" where
  "initialize_weights g p layers =
     init_loop g layers [1..<length layers] ([[[0]]], [[[0]]], p)"

section \<open>Forward pass and prediction\<close>

text \<open>
  \<^verbatim>\<open>
  def forward_pass(W, B, xi, predict_vector = False):
      Z = [[0.0]]
      A = [xi]
      L = len(W) - 1
      for i in range(1, L + 1):
          z = W[i] @ A[i-1] + B[i]
          Z.append(z)
          a = sigmoid(z)
          A.append(a)
      if predict_vector == False:
          return Z, A
      else:
          return A[-1]

  def predict(W, B, xi):
      _, A = forward_pass(W, B, xi)
      return np.argmax(A[-1])
  \<close>
  \<open>Z[0]\<close> is again the Python list \<open>[[0.0]]\<close>, and \<open>train\<close> can hand it to \<open>d_sigmoid\<close>,
  where the unary minus of a list raises TypeError; the entries of \<open>Z\<close> are therefore
  either that placeholder or an array. \<open>range(1, L + 1)\<close> with \<open>L = len(W) - 1\<close> is
  the index list \<open>[1..<length W]\<close>, empty also when \<open>W\<close> is empty. The two return
  shapes of \<open>forward_pass\<close> are the two constructors of \<open>fp_result\<close>; a caller that
  receives the shape it did not ask for cannot occur, and that branch is a TypeError.

  \<open>np.argmax\<close> is NumPy's: on the array flattened row by row it returns the index of
  the first occurrence of the maximum and raises ValueError on an empty array. It is
  modelled as a left-to-right scan that replaces the best entry only by a strictly
  greater one.
\<close>

datatype slot = Placeholder | Arr mat

datatype fp_result = Full "slot list" "mat list" | Vec mat

fun forward_loop ::
  "mat list \<Rightarrow> mat list \<Rightarrow> nat list \<Rightarrow> slot list \<times> mat list \<Rightarrow> error + slot list \<times> mat list"
where
  "forward_loop W B [] (Z, A) = Inr (Z, A)"
| "forward_loop W B (i # is) (Z, A) =
     ebind (py_get W (int i)) (\<lambda>w.
     ebind (py_get A (int i - 1)) (\<lambda>a.
     ebind (np_matmul w a) (\<lambda>wa.
     ebind (py_get B (int i)) (\<lambda>b.
     ebind (bc2 (+) wa b) (\<lambda>z.
     forward_loop W B is (Z @ [Arr z], A @ [sigmoid z]))))))"

definition forward_pass :: "mat list \<Rightarrow> mat list \<Rightarrow> mat \<Rightarrow> bool \<Rightarrow> error + fp_result" where
  "forward_pass W B xi predict_vector =
     ebind (forward_loop W B [1..<length W] ([Placeholder], [xi])) (\<lambda>(Z, A).
       if predict_vector = False then Inr (Full Z A)
       else ebind (py_get A (- 1)) (\<lambda>a. Inr (Vec a)))"

fun argmax_scan :: "vec \<Rightarrow> nat \<Rightarrow> nat \<Rightarrow> real \<Rightarrow> nat" where
  "argmax_scan [] i best bv = best"
| "argmax_scan (x # xs) i best bv =
     (if bv < x then argmax_scan xs (Suc i) i x else argmax_scan xs (Suc i) best bv)"

definition np_argmax :: "mat \<Rightarrow> error + nat" where
  "np_argmax m =
     (case concat m of [] \<Rightarrow> Inl ValueError | x # xs \<Rightarrow> Inr (argmax_scan xs 1 0 x))"

definition predict :: "mat list \<Rightarrow> mat list \<Rightarrow> mat \<Rightarrow> error + nat" where
  "predict W B xi =
     ebind (forward_pass W B xi False) (\<lambda>r.
       case r of
         Full Z A \<Rightarrow> ebind (py_get A (- 1)) np_argmax
       | Vec v \<Rightarrow> Inl TypeError)"

section \<open>Dataset loss\<close>

text \<open>
  \<^verbatim>\<open>
  def MSE(W, B, X, y):
      cost = 0.0
      m = 0
      for xi, yi in zip(X, y):
          a = forward_pass(W, B, xi, predict_vector = True)
          cost += mse(a, yi)
          m+=1
      return cost/m
  \<close>
  With no example pair the loop body never runs and \<open>0.0/0\<close> raises
  ZeroDivisionError.
\<close>

fun MSE_loop :: "mat list \<Rightarrow> mat list \<Rightarrow> (mat \<times> mat) list \<Rightarrow> real \<times> nat \<Rightarrow> error + real \<times> nat" where
  "MSE_loop W B [] (cost, m) = Inr (cost, m)"
| "MSE_loop W B ((xi, yi) # ps) (cost, m) =
     ebind (forward_pass W B xi True) (\<lambda>r.
       case r of
         Vec a \<Rightarrow> ebind (mse a yi) (\<lambda>c. MSE_loop W B ps (cost + c, m + 1))
       | Full Z A \<Rightarrow> Inl TypeError)"

definition MSE :: "mat list \<Rightarrow> mat list \<Rightarrow> mat list \<Rightarrow> mat list \<Rightarrow> error + real" where
  "MSE W B X y =
     ebind (MSE_loop W B (zip X y) (0, 0)) (\<lambda>(cost, m).
       if m = 0 then Inl ZeroDivisionError else Inr (cost / real m))"

section \<open>The network object\<close>

text \<open>
  \<^verbatim>\<open>
  class DenseNetwork(object):
      def __init__(self, layers = [784, 60, 60, 10]):
          self.layers = layers
          self.W, self.B = initialize_weights(layers = self.layers)
  \<close>
  The object is a record of its attributes. \<open>__init__\<close> does not create the attribute
  \<open>errors_\<close> (the field \<open>self_errors\<close>); it exists only once \<open>train\<close> has assigned it, so
  the field is an option.
\<close>

record network =
  self_layers :: "int list"
  self_W :: "mat list"
  self_B :: "mat list"
  self_errors :: "real list option"

definition DenseNetwork_init :: "rng \<Rightarrow> nat \<Rightarrow> int list \<Rightarrow> error + network \<times> nat" where
  "DenseNetwork_init g p layers =
     ebind (initialize_weights g p layers) (\<lambda>(W, B, p').
       Inr (\<lparr>self_layers = layers, self_W = W, self_B = B, self_errors = None\<rparr>, p'))"

text \<open>
  \<^verbatim>\<open>
      def train(self, X_train, y_train, alpha = 0.046, epochs = 4):
          self.errors_ = [MSE(self.W, self.B, X_train, y_train)]
          L = len(self.layers) - 1
          for k in range(epochs):
              for xi, yi in zip(X_train, y_train):
                  Z, A = forward_pass(self.W, self.B, xi)
                  deltas = dict()
                  output_error = (A[L] - yi)*d_sigmoid(Z[L])
                  deltas[L] = output_error
                  for i in range(L-1, 0, -1):
                      deltas[i] = (self.W[i+1].T @ deltas[i+1])*d_sigmoid(Z[i])
                  for i in range(1, L+1):
                      self.W[i] -= alpha*deltas[i] @ A[i-1].T
                      self.B[i] -= alpha*deltas[i]
              self.errors_.append(MSE(self.W, self.B, X_train, y_train))

      def predict(self, xi):
          _, A = forward_pass(self.W, self.B, xi)
          return np.argmax(A[-1])
  \<close>
  (the \<open>print\<close> calls and the unused locals \<open>sample_size\<close> and \<open>depth\<close> are left out).
  A method returns the object after the call together with the exception, if one was
  raised: an exception in the middle of training leaves the updates made so far in
  place. \<open>alpha*deltas[i] @ A[i-1].T\<close> parses as \<open>(alpha*deltas[i]) @ (A[i-1].T)\<close>.
  The arrays that \<open>-=\<close> overwrites are those of \<open>self.W\<close> and \<open>self.B\<close> only; \<open>deltas\<close>
  and \<open>A\<close> hold arrays computed before the first update (and the input), so the
  overwriting is a replacement of list entries.

  The body of the loop over the pairs is \<open>sgd_step\<close>: its first part, up to the end of
  the loop that fills \<open>deltas\<close>, is \<open>backprop\<close>, its second part is \<open>update_loop\<close>.
  \<open>example_loop\<close> is the loop over the pairs and \<open>epoch_loop\<close> the loop over
  \<open>range(epochs)\<close>, which runs \<open>nat epochs\<close> times (not at all for a negative count).
  \<open>range(L-1, 0, -1)\<close> is \<open>rev [1..<nat L]\<close> and \<open>range(1, L+1)\<close> is \<open>[1..<nat (L + 1)]\<close>.
\<close>

type_synonym deltas = "int \<Rightarrow> mat option"

definition dict_get :: "deltas \<Rightarrow> int \<Rightarrow> error + mat" where
  "dict_get ds k = (case ds k of None \<Rightarrow> Inl KeyError | Some v \<Rightarrow> Inr v)"

definition d_sigmoid_obj :: "slot \<Rightarrow> error + mat" where
  "d_sigmoid_obj s = (case s of Placeholder \<Rightarrow> Inl TypeError | Arr z \<Rightarrow> Inr (d_sigmoid z))"

fun delta_loop :: "mat list \<Rightarrow> slot list \<Rightarrow> int list \<Rightarrow> deltas \<Rightarrow> error + deltas" where
  "delta_loop W Z [] ds = Inr ds"
| "delta_loop W Z (i # is) ds =
     ebind (py_get W (i + 1)) (\<lambda>w.
     ebind (dict_get ds (i + 1)) (\<lambda>d.
     ebind (np_matmul (transpose_m w) d) (\<lambda>wd.
     ebind (py_get Z i) (\<lambda>z.
     ebind (d_sigmoid_obj z) (\<lambda>dz.
     ebind (bc2 (*) wd dz) (\<lambda>nd.
     delta_loop W Z is (ds(i \<mapsto> nd))))))))"

fun update_loop ::
  "real \<Rightarrow> deltas \<Rightarrow> mat list \<Rightarrow> int list \<Rightarrow> mat list \<times> mat list \<Rightarrow> (mat list \<times> mat list) \<times> error option"
where
  "update_loop alpha ds A [] (W, B) = ((W, B), None)"
| "update_loop alpha ds A (i # is) (W, B) =
     (case ebind (py_get W i) (\<lambda>w.
           ebind (dict_get ds i) (\<lambda>d.
           ebind (py_get A (i - 1)) (\<lambda>a.
           ebind (np_matmul (smul alpha d) (transpose_m a)) (\<lambda>g.
           np_isub w g)))) of
        Inl e \<Rightarrow> ((W, B), Some e)
      | Inr w' \<Rightarrow>
          (case ebind (py_get B i) (\<lambda>b.
                ebind (dict_get ds i) (\<lambda>d.
                np_isub b (smul alpha d))) of
             Inl e \<Rightarrow> ((W[nat i := w'], B), Some e)
           | Inr b' \<Rightarrow> update_loop alpha ds A is (W[nat i := w'], B[nat i := b'])))"

definition backprop :: "int \<Rightarrow> mat \<Rightarrow> mat \<Rightarrow> mat list \<times> mat list \<Rightarrow> error + deltas \<times> mat list" where
  "backprop L xi yi WB =
     ebind (forward_pass (fst WB) (snd WB) xi False) (\<lambda>r.
       case r of
         Vec v \<Rightarrow> Inl TypeError
       | Full Z A \<Rightarrow>
           ebind (py_get A L) (\<lambda>aL.
           ebind (bc2 (-) aL yi) (\<lambda>diff.
           ebind (py_get Z L) (\<lambda>zL.
           ebind (d_sigmoid_obj zL) (\<lambda>dz.
           ebind (bc2 (*) diff dz) (\<lambda>output_error.
           ebind (delta_loop (fst WB) Z (map int (rev [1..<nat L])) (Map.empty(L \<mapsto> output_error)))
             (\<lambda>ds. Inr (ds, A))))))))"

definition sgd_step ::
  "int \<Rightarrow> real \<Rightarrow> mat \<Rightarrow> mat \<Rightarrow> mat list \<times> mat list \<Rightarrow> (mat list \<times> mat list) \<times> error option"
where
  "sgd_step L alpha xi yi WB =
     (case backprop L xi yi WB of
        Inl e \<Rightarrow> (WB, Some e)
      | Inr (ds, A) \<Rightarrow> update_loop alpha ds A (map int [1..<nat (L + 1)]) WB)"

fun example_loop ::
  "int \<Rightarrow> real \<Rightarrow> (mat \<times> mat) list \<Rightarrow> mat list \<times> mat list \<Rightarrow> (mat list \<times> mat list) \<times> error option"
where
  "example_loop L alpha [] WB = (WB, None)"
| "example_loop L alpha ((xi, yi) # ps) WB =
     (case sgd_step L alpha xi yi WB of
        (WB', Some e) \<Rightarrow> (WB', Some e)
      | (WB', None) \<Rightarrow> example_loop L alpha ps WB')"

fun epoch_loop ::
  "nat \<Rightarrow> int \<Rightarrow> real \<Rightarrow> mat list \<Rightarrow> mat list \<Rightarrow> network \<Rightarrow> network \<times> error option"
where
  "epoch_loop 0 L alpha X y net = (net, None)"
| "epoch_loop (Suc k) L alpha X y net =
     (case example_loop L alpha (zip X y) (self_W net, self_B net) of
        ((W', B'), Some e) \<Rightarrow> (net\<lparr>self_W := W', self_B := B'\<rparr>, Some e)
      | ((W', B'), None) \<Rightarrow>
          (case MSE W' B' X y of
             Inl e \<Rightarrow> (net\<lparr>self_W := W', self_B := B'\<rparr>, Some e)
           | Inr c \<Rightarrow>
               (case self_errors net of
                  None \<Rightarrow> (net\<lparr>self_W := W', self_B := B'\<rparr>, Some AttributeError)
                | Some es \<Rightarrow>
                    epoch_loop k L alpha X y
                      (net\<lparr>self_W := W', self_B := B', self_errors := Some (es @ [c])\<rparr>))))"

definition train :: "network \<Rightarrow> mat list \<Rightarrow> mat list \<Rightarrow> real \<Rightarrow> int \<Rightarrow> network \<times> error option" where
  "train net X_train y_train alpha epochs =
     (case MSE (self_W net) (self_B net) X_train y_train of
        Inl e \<Rightarrow> (net, Some e)
      | Inr c \<Rightarrow>
          epoch_loop (nat epochs) (int (length (self_layers net)) - 1) alpha X_train y_train
            (net\<lparr>self_errors := Some [c]\<rparr>))"

definition DenseNetwork_predict :: "network \<Rightarrow> mat \<Rightarrow> network \<times> (error + nat)" where
  "DenseNetwork_predict net xi =
     (net,
      ebind (forward_pass (self_W net) (self_B net) xi False) (\<lambda>r.
        case r of
          Full Z A \<Rightarrow> ebind (py_get A (- 1)) np_argmax
        | Vec v \<Rightarrow> Inl TypeError))"

section \<open>Shapes consistent with a topology\<close>

text \<open>
  \<open>consistent layers W B\<close>: the sizes are positive, \<open>W\<close> and \<open>B\<close> have one entry per
  layer (index 0 the placeholder), \<open>W[i]\<close> has shape \<open>(layers[i], layers[i-1])\<close> and
  \<open>B[i]\<close> has shape \<open>(layers[i], 1)\<close> for every \<open>i\<close> from 1 to \<open>L\<close>.
\<close>

definition consistent :: "int list \<Rightarrow> mat list \<Rightarrow> mat list \<Rightarrow> bool" where
  "consistent layers W B \<longleftrightarrow>
     layers \<noteq> [] \<and> length W = length layers \<and> length B = length layers \<and>
     list_all (\<lambda>n. 0 < n) layers \<and>
     list_all (\<lambda>i. is_mat (nat (layers ! i)) (nat (layers ! (i - 1))) (W ! i) \<and>
                    is_mat (nat (layers ! i)) 1 (B ! i)) [1..<length layers]"

section \<open>Example data\<close>

text \<open>Concrete arrays on which the theorems below are instantiated.\<close>

definition ex_ramp :: mat where
  "ex_ramp = [[1], [2], [3], [4], [5], [6], [7], [8], [9], [10]]"

definition ex_zeros10 :: mat where
  "ex_zeros10 = [[0], [0], [0], [0], [0], [0], [0], [0], [0], [0]]"

definition ex_zeros11 :: mat where
  "ex_zeros11 = [[0], [0], [0], [0], [0], [0], [0], [0], [0], [0], [0]]"

definition ex_last11 :: mat where
  "ex_last11 = [[0], [0], [0], [0], [0], [0], [0], [0], [0], [0], [1]]"

definition ex_net10 :: network where
  "ex_net10 = \<lparr>self_layers = [1, 10], self_W = [[[0]], ex_zeros10],
              self_B = [[[0]], ex_zeros10], self_errors = None\<rparr>"

definition ex_W3 :: "mat list" where
  "ex_W3 = [[[0]], [[2]], [[3]]]"

definition ex_B3 :: "mat list" where
  "ex_B3 = [[[0]], [[0]], [[1]]]"

definition ex_W2 :: "mat list" where
  "ex_W2 = [[[0]], [[0], [0], [1]]]"

definition ex_B2 :: "mat list" where
  "ex_B2 = [[[0]], [[1], [1], [0]]]"

definition ex_Z3 :: "slot list" where
  "ex_Z3 = [Placeholder, Arr [[0]], Arr [[5 / 2]]]"

definition ex_A3 :: "mat list" where
  "ex_A3 = [[[0]], [[1 / 2]], [[1 / (1 + exp (- (5 / 2)))]]]"

definition ex_onehot10 :: mat where
  "ex_onehot10 = [[1], [0], [0], [0], [0], [0], [0], [0], [0], [0]]"

definition ex_net10_trained :: network where
  "ex_net10_trained = fst (train ex_net10 [[[1]]] [ex_onehot10] (1 / 10) 1)"

section \<open>The error signals as the specification states them\<close>

text \<open>
  The specification's recurrence for the error signals, written down independently of
  the training loop and compared with it below: \<open>delta[L] = (A[L] - y) * d_sigmoid(Z[L])\<close>
  and, for \<open>i < L\<close>, \<open>delta[i] = (W[i+1]^T delta[i+1]) * d_sigmoid(Z[i])\<close>, the products
  \<open>*\<close> elementwise. \<open>arr_of\<close> reads the array held by an entry of \<open>Z\<close>.
\<close>

definition arr_of :: "slot \<Rightarrow> mat" where
  "arr_of s = (case s of Placeholder \<Rightarrow> [[0]] | Arr m \<Rightarrow> m)"

function spec_delta :: "mat list \<Rightarrow> slot list \<Rightarrow> mat list \<Rightarrow> mat \<Rightarrow> nat \<Rightarrow> nat \<Rightarrow> mat" where
  "spec_delta W Z A y L i =
     (if L \<le> i then ew (*) (ew (-) (A ! L) y) (d_sigmoid (arr_of (Z ! L)))
      else ew (*) (matmul (transpose_m (W ! (i + 1))) (spec_delta W Z A y L (i + 1)))
                  (d_sigmoid (arr_of (Z ! i))))"
  by pat_completeness auto
termination
  by (relation "measure (\<lambda>(W, Z, A, y, L, i). L - i)") auto

declare spec_delta.simps [simp del]

text \<open>What the forward pass establishes, as one predicate on its result.\<close>

definition fwd_ok :: "int list \<Rightarrow> slot list \<Rightarrow> mat list \<Rightarrow> bool" where
  "fwd_ok layers Z A \<longleftrightarrow>
     length Z = length layers \<and> length A = length layers \<and>
     (\<forall>i<length layers. is_mat (nat (layers ! i)) 1 (A ! i)) \<and>
     (\<forall>i. 1 \<le> i \<and> i < length layers \<longrightarrow> (\<exists>z. Z ! i = Arr z \<and> is_mat (nat (layers ! i)) 1 z))"

section \<open>Basic facts\<close>

lemma ebind_Inl [simp]: "ebind (Inl e) f = Inl e"
  by (simp add: ebind_def)

lemma ebind_Inr [simp]: "ebind (Inr v) f = f v"
  by (simp add: ebind_def)

lemma ebind_eq_Inr:
  "ebind r f = Inr w \<longleftrightarrow> (\<exists>v. r = Inr v \<and> f v = Inr w)"
  by (cases r) simp_all

lemma py_get_nat: "i < length xs \<Longrightarrow> py_get xs (int i) = Inr (xs ! i)"
  by (simp add: py_get_def)

lemma py_get_nat_out: "length xs \<le> i \<Longrightarrow> py_get xs (int i) = Inl IndexError"
  by (simp add: py_get_def)

section \<open>The per-example loss\<close>

lemma bc1_single:
  "length xs = 1 \<Longrightarrow> length ys = 1 \<Longrightarrow> bc1 f xs ys = Inr [f (hd xs) (hd ys)]"
  by (cases xs; cases ys) (simp_all add: bc1_def)

lemma mse_loop_cols:
  assumes "list_all (\<lambda>r. length r = 1) a" "list_all (\<lambda>r. length r = 1) y"
    and "\<forall>i\<in>set is. i < length a \<and> i < length y" and "length acc = 1"
  shows "mse_loop a y is acc = Inr [hd acc + (\<Sum>i\<leftarrow>is. (a ! i ! 0 - y ! i ! 0)\<^sup>2)]"
  using assms(3,4)
proof (induction "is" arbitrary: acc)
  case Nil
  then show ?case by (cases acc) simp_all
next
  case (Cons i "is")
  have ia: "i < length a" and iy: "i < length y" using Cons.prems by simp_all
  have la: "length (a ! i) = 1" using assms(1) ia by (simp add: list_all_length)
  have ly: "length (y ! i) = 1" using assms(2) iy by (simp add: list_all_length)
  have hda: "hd (a ! i) = a ! i ! 0" using la by (cases "a ! i") simp_all
  have hdy: "hd (y ! i) = y ! i ! 0" using ly by (cases "y ! i") simp_all
  have step: "mse_loop a y (i # is) acc = mse_loop a y is [hd acc + (a ! i ! 0 - y ! i ! 0)\<^sup>2]"
    using ia iy la ly Cons.prems(2) hda hdy
    by (simp add: py_get_nat bc1_single)
  show ?case
    using Cons.IH [of "[hd acc + (a ! i ! 0 - y ! i ! 0)\<^sup>2]"] Cons.prems step
    by (simp add: add.assoc)
qed

lemma mse_loop_short:
  assumes "list_all (\<lambda>r. length r = 1) a" "list_all (\<lambda>r. length r = 1) y"
    and "\<exists>i\<in>set is. length a \<le> i \<or> length y \<le> i" and "length acc = 1"
  shows "mse_loop a y is acc = Inl IndexError"
  using assms(3,4)
proof (induction "is" arbitrary: acc)
  case Nil
  then show ?case by simp
next
  case (Cons i "is")
  show ?case
  proof (cases "i < length a \<and> i < length y")
    case True
    then have ia: "i < length a" and iy: "i < length y" by simp_all
    have la: "length (a ! i) = 1" using assms(1) ia by (simp add: list_all_length)
    have ly: "length (y ! i) = 1" using assms(2) iy by (simp add: list_all_length)
    have step: "mse_loop a y (i # is) acc = mse_loop a y is [hd acc + (hd (a ! i) - hd (y ! i))\<^sup>2]"
      using ia iy la ly Cons.prems(2) by (simp add: py_get_nat bc1_single)
    have ex: "\<exists>i\<in>set is. length a \<le> i \<or> length y \<le> i" using Cons.prems(1) True by auto
    show ?thesis using Cons.IH [OF ex, of "[hd acc + (hd (a ! i) - hd (y ! i))\<^sup>2]"] step by simp
  next
    case False
    show ?thesis
    proof (cases "i < length a")
      case True
      with False have "length y \<le> i" by simp
      then show ?thesis using True by (simp add: py_get_nat py_get_nat_out)
    next
      case False
      then show ?thesis by (simp add: py_get_nat_out)
    qed
  qed
qed

lemma mse_cols_ten:
  assumes "list_all (\<lambda>r. length r = 1) a" "list_all (\<lambda>r. length r = 1) y"
    and "10 \<le> length a" "10 \<le> length y"
  shows "mse a y = Inr (0.5 * (\<Sum>j<10. (a ! j ! 0 - y ! j ! 0)\<^sup>2))"
proof -
  have "mse_loop a y [0..<10] [0] = Inr [hd [0] + (\<Sum>i\<leftarrow>[0..<10]. (a ! i ! 0 - y ! i ! 0)\<^sup>2)]"
    by (rule mse_loop_cols [OF assms(1,2)]) (use assms(3,4) in auto)
  moreover have "(\<Sum>i\<leftarrow>[0..<10]. (a ! i ! 0 - y ! i ! 0)\<^sup>2) = (\<Sum>j<10. (a ! j ! 0 - y ! j ! 0)\<^sup>2)"
    by (simp add: interv_sum_list_conv_sum_set_nat atLeast0LessThan)
  ultimately show ?thesis
    by (simp add: mse_def py_get_def)
qed

lemma mse_cols_short:
  assumes "list_all (\<lambda>r. length r = 1) a" "list_all (\<lambda>r. length r = 1) y"
    and "length a < 10 \<or> length y < 10"
  shows "mse a y = Inl IndexError"
proof -
  from assms(3) have "\<exists>i\<in>set [0..<10]. length a \<le> i \<or> length y \<le> i" by auto
  then have "mse_loop a y [0..<10] [0] = Inl IndexError"
    by (intro mse_loop_short [OF assms(1,2)]) simp_all
  then show ?thesis by (simp add: mse_def)
qed

text \<open>
  Claim C3, as the code has it. \<open>mse\<close> always sums over the row indices 0 to 9,
  whatever the length of its arguments: for column vectors \<open>a\<close> and \<open>y\<close> with at least
  ten rows each it returns 0.5 times the sum of \<open>(a_j - y_j)^2\<close> over the first ten
  rows (which is the sum over all \<open>k\<close> rows exactly when \<open>k = 10\<close>), and for a column
  vector with fewer than ten rows it raises IndexError.
\<close>

theorem mse_first_ten:
  assumes "list_all (\<lambda>r. length r = 1) a" and "list_all (\<lambda>r. length r = 1) y"
  shows "(10 \<le> length a \<and> 10 \<le> length y \<longrightarrow>
            mse a y = Inr (0.5 * (\<Sum>j<10. (a ! j ! 0 - y ! j ! 0)\<^sup>2))) \<and>
         (length a < 10 \<or> length y < 10 \<longrightarrow> mse a y = Inl IndexError)"
  using mse_cols_ten [OF assms] mse_cols_short [OF assms] by blast

theorem mse_first_ten_witness:
  "mse ex_ramp ex_zeros10 = Inr (385 / 2) \<and> mse [[1], [2], [3]] [[0], [0], [0]] = Inl IndexError"
  using mse_first_ten [of ex_ramp ex_zeros10] mse_first_ten [of "[[1], [2], [3]]" "[[0], [0], [0]]"]
  by (simp add: ex_ramp_def ex_zeros10_def lessThan_nat_numeral lessThan_Suc)

text \<open>
  The claim as stated fails for \<open>k = 11\<close>: the two vectors differ in their last entry
  only, the claimed value is 1/2, and \<open>mse\<close> returns 0. It also fails for \<open>k = 1\<close>,
  where \<open>mse\<close> returns nothing.
\<close>

theorem mse_all_entries_counterexample:
  "length ex_last11 = length ex_zeros11 \<and>
   0.5 * (\<Sum>j<length ex_last11. (ex_last11 ! j ! 0 - ex_zeros11 ! j ! 0)\<^sup>2) = 1 / 2 \<and>
   mse ex_last11 ex_zeros11 = Inr 0 \<and>
   mse [[1]] [[0]] = Inl IndexError"
  by (simp add: ex_last11_def ex_zeros11_def mse_def upt_rec py_get_def bc1_def
      lessThan_nat_numeral lessThan_Suc)

lemma bc1_sub_self: "bc1 (-) r r = Inr (replicate (length r) 0)"
  by (simp add: bc1_def map_replicate_const [symmetric] zip_same_conv_map comp_def)

lemma bc1_add_zeros:
  assumes "acc = [0] \<or> acc = replicate c 0" and "0 < c"
  shows "bc1 (+) acc (replicate c 0) = Inr (replicate c 0)"
proof -
  have eq: "map2 (+) (replicate c (0::real)) (replicate c 0) = replicate c 0"
    by (simp add: zip_replicate)
  show ?thesis
  proof (cases "acc = replicate c 0")
    case True
    then show ?thesis by (simp add: bc1_def eq)
  next
    case False
    with assms have acc: "acc = [0]" and c1: "c \<noteq> 1" by auto
    then show ?thesis by (simp add: bc1_def map_replicate_const [symmetric])
  qed
qed

lemma mse_loop_self:
  assumes "list_all (\<lambda>r. length r = c) a" and "0 < c"
    and "\<forall>i\<in>set is. i < length a" and "acc = [0] \<or> acc = replicate c 0"
  shows "mse_loop a a is acc = Inr acc \<or> mse_loop a a is acc = Inr (replicate c 0)"
  using assms(3,4)
proof (induction "is" arbitrary: acc)
  case Nil
  then show ?case by simp
next
  case (Cons i "is")
  have ia: "i < length a" using Cons.prems by simp
  have la: "length (a ! i) = c" using assms(1) ia by (simp add: list_all_length)
  have step: "mse_loop a a (i # is) acc = mse_loop a a is (replicate c 0)"
    using ia la bc1_add_zeros [OF Cons.prems(2) assms(2)]
    by (simp add: py_get_nat bc1_sub_self)
  have "mse_loop a a is (replicate c 0) = Inr (replicate c 0)"
    using Cons.IH [of "replicate c 0"] Cons.prems(1) by auto
  with step show ?case by simp
qed

lemma bc1_nonneg:
  assumes "bc1 (+) xs ys = Inr zs" "list_all (\<lambda>v. 0 \<le> v) xs" "list_all (\<lambda>v. 0 \<le> v) ys"
  shows "list_all (\<lambda>v. 0 \<le> v) zs"
proof -
  have hx: "length xs = 1 \<Longrightarrow> 0 \<le> hd xs" using assms(2) by (cases xs) simp_all
  have hy: "length ys = 1 \<Longrightarrow> 0 \<le> hd ys" using assms(3) by (cases ys) simp_all
  have m2: "list_all (\<lambda>v. 0 \<le> v) (map2 (+) xs ys)"
    using assms(2,3) by (auto simp: list_all_iff intro!: add_nonneg_nonneg
        dest: set_zip_leftD set_zip_rightD)
  show ?thesis
    using assms hx hy m2
    by (auto simp: bc1_def list_all_iff split: if_splits)
qed

lemma mse_loop_nonneg:
  "mse_loop a y is acc = Inr r \<Longrightarrow> list_all (\<lambda>v. 0 \<le> v) acc \<Longrightarrow> list_all (\<lambda>v. 0 \<le> v) r"
proof (induction "is" arbitrary: acc)
  case Nil
  then show ?case by simp
next
  case (Cons i "is")
  from Cons.prems(1) obtain ai yi d acc' where
    d: "bc1 (-) ai yi = Inr d" and
    acc': "bc1 (+) acc (map (\<lambda>v. v\<^sup>2) d) = Inr acc'" and
    rest: "mse_loop a y is acc' = Inr r"
    by (auto simp: ebind_eq_Inr)
  have "list_all (\<lambda>v. 0 \<le> v) (map (\<lambda>v. v\<^sup>2) d)" by (simp add: list_all_iff)
  then have "list_all (\<lambda>v. 0 \<le> v) acc'" using bc1_nonneg [OF acc' Cons.prems(2)] by simp
  then show ?case using Cons.IH [OF rest] by simp
qed

text \<open>
  Claim C8, as the code has it. For every array \<open>a\<close> with at least ten rows (of one
  common positive length, a column vector in particular) \<open>mse(a, a)\<close> is 0, and
  whenever \<open>mse(a, y)\<close> returns a value, that value is at least 0.
\<close>

theorem mse_self_zero_nonneg:
  "(10 \<le> length a \<and> list_all (\<lambda>r. length r = c) a \<and> 0 < c \<longrightarrow> mse a a = Inr 0) \<and>
   (mse a y = Inr r \<longrightarrow> 0 \<le> r)"
proof (intro conjI impI)
  assume h: "10 \<le> length a \<and> list_all (\<lambda>r. length r = c) a \<and> 0 < c"
  then have "mse_loop a a [0..<10] [0] = Inr [0] \<or> mse_loop a a [0..<10] [0] = Inr (replicate c 0)"
    by (intro mse_loop_self) auto
  then show "mse a a = Inr 0"
    using h by (auto simp: mse_def py_get_def)
next
  assume "mse a y = Inr r"
  then obtain s s0 where s: "mse_loop a y [0..<10] [0] = Inr s"
    and s0: "py_get s 0 = Inr s0" and r: "r = 0.5 * s0"
    by (auto simp: mse_def ebind_eq_Inr)
  have "list_all (\<lambda>v. 0 \<le> v) s" using mse_loop_nonneg [OF s] by simp
  moreover have "s0 \<in> set s" using s0 by (auto simp: py_get_def split: if_splits)
  ultimately have "0 \<le> s0" by (simp add: list_all_iff)
  then show "0 \<le> r" using r by simp
qed

theorem mse_self_zero_nonneg_witness:
  "mse ex_ramp ex_ramp = Inr 0 \<and> mse ex_ramp ex_zeros10 = Inr (385 / 2) \<and> (0::real) \<le> 385 / 2"
proof -
  have e: "mse ex_ramp ex_zeros10 = Inr (385 / 2)"
    by (simp add: mse_def ex_ramp_def ex_zeros10_def upt_rec py_get_def bc1_def)
  show ?thesis
    using mse_self_zero_nonneg [of ex_ramp 1 ex_zeros10 "385 / 2"] e
    by (simp add: ex_ramp_def)
qed

text \<open>
  The claim as stated fails for a vector with fewer than ten entries: \<open>mse(a, a)\<close>
  raises IndexError instead of returning 0.
\<close>

theorem mse_self_short_counterexample:
  "mse [[1], [2], [3]] [[1], [2], [3]] = Inl IndexError \<and>
   mse [[1], [2], [3]] [[1], [2], [3]] \<noteq> Inr 0"
  by (simp add: mse_def upt_rec py_get_def bc1_def)

section \<open>The parameter initializer\<close>

lemma py_get_pred:
  "1 \<le> i \<Longrightarrow> i \<le> length xs \<Longrightarrow> py_get xs (int i - 1) = Inr (xs ! (i - 1))"
  by (auto simp: py_get_def nat_diff_distrib)

lemma is_mat_randn:
  "randn g p m n = Inr (a, p') \<Longrightarrow> is_mat (nat m) (nat n) a"
  by (auto simp: randn_def is_mat_def list_all_iff split: if_splits)

lemma randn_ok: "0 \<le> m \<Longrightarrow> 0 \<le> n \<Longrightarrow> \<exists>a p'. randn g p m n = Inr (a, p')"
  by (simp add: randn_def)

lemma is_mat_mscale: "is_mat r c a \<Longrightarrow> is_mat r c (mscale a s)"
  by (simp add: is_mat_def mscale_def list_all_iff)

lemma init_loop_ok:
  assumes pos: "list_all (\<lambda>n. 0 < n) layers"
    and idx: "\<forall>i\<in>set is. 1 \<le> i \<and> i < length layers"
  shows "\<exists>W' B' p'. init_loop g layers is (W, B, p) = Inr (W @ W', B @ B', p') \<and>
           length W' = length is \<and> length B' = length is \<and>
           (\<forall>k<length is. is_mat (nat (layers ! (is ! k))) (nat (layers ! (is ! k - 1))) (W' ! k) \<and>
                           is_mat (nat (layers ! (is ! k))) 1 (B' ! k))"
  using idx
proof (induction "is" arbitrary: W B p)
  case Nil
  then show ?case by simp
next
  case (Cons i "is")
  have i: "1 \<le> i" "i < length layers" using Cons.prems by simp_all
  have li: "0 < layers ! i" and lp: "0 < layers ! (i - 1)"
    using pos i by (simp_all add: list_all_length)
  have gi: "py_get layers (int i) = Inr (layers ! i)" using i by (simp add: py_get_nat)
  have gp: "py_get layers (int i - 1) = Inr (layers ! (i - 1))"
    using i by (simp add: py_get_pred)
  obtain w0 p1 where w0: "randn g p (layers ! i) (layers ! (i - 1)) = Inr (w0, p1)"
    using randn_ok [of "layers ! i" "layers ! (i - 1)" g p] li lp by auto
  obtain b0 p2 where b0: "randn g p1 (layers ! i) 1 = Inr (b0, p2)"
    using randn_ok [of "layers ! i" 1 g p1] li by auto
  define s where "s = sqrt (2 / real_of_int (layers ! (i - 1)))"
  have hs: "he_scale (layers ! (i - 1)) = Inr s" using lp by (simp add: he_scale_def s_def)
  have step: "init_loop g layers (i # is) (W, B, p) =
      init_loop g layers is (W @ [mscale w0 s], B @ [mscale b0 s], p2)"
    using w0 b0 hs by (simp add: gi gp)
  have mw: "is_mat (nat (layers ! i)) (nat (layers ! (i - 1))) (mscale w0 s)"
    using is_mat_randn [OF w0] by (rule is_mat_mscale)
  have mb: "is_mat (nat (layers ! i)) 1 (mscale b0 s)"
    using is_mat_randn [OF b0] is_mat_mscale [of "nat (layers ! i)" 1 b0 s] by simp
  from Cons.IH [of "W @ [mscale w0 s]" "B @ [mscale b0 s]" p2] Cons.prems
  obtain W' B' p' where
    r: "init_loop g layers is (W @ [mscale w0 s], B @ [mscale b0 s], p2) =
          Inr ((W @ [mscale w0 s]) @ W', (B @ [mscale b0 s]) @ B', p')"
    and l: "length W' = length is" "length B' = length is"
    and sh: "\<forall>k<length is. is_mat (nat (layers ! (is ! k))) (nat (layers ! (is ! k - 1))) (W' ! k) \<and>
                           is_mat (nat (layers ! (is ! k))) 1 (B' ! k)"
    by auto
  show ?case
  proof (intro exI conjI)
    show "init_loop g layers (i # is) (W, B, p) = Inr (W @ (mscale w0 s # W'), B @ (mscale b0 s # B'), p')"
      using step r by simp
    show "length (mscale w0 s # W') = length (i # is)" using l by simp
    show "length (mscale b0 s # B') = length (i # is)" using l by simp
    show "\<forall>k<length (i # is).
       is_mat (nat (layers ! ((i # is) ! k))) (nat (layers ! ((i # is) ! k - 1))) ((mscale w0 s # W') ! k) \<and>
       is_mat (nat (layers ! ((i # is) ! k))) 1 ((mscale b0 s # B') ! k)"
    proof (intro allI impI)
      fix k assume "k < length (i # is)"
      then show "is_mat (nat (layers ! ((i # is) ! k))) (nat (layers ! ((i # is) ! k - 1))) ((mscale w0 s # W') ! k) \<and>
       is_mat (nat (layers ! ((i # is) ! k))) 1 ((mscale b0 s # B') ! k)"
        using mw mb sh by (cases k) simp_all
    qed
  qed
qed

lemma initialize_weights_short:
  "length layers < 2 \<Longrightarrow> initialize_weights g p layers = Inr ([[[0]]], [[[0]]], p)"
  by (simp add: initialize_weights_def)

lemma initialize_weights_consistent:
  assumes "layers \<noteq> []" and pos: "list_all (\<lambda>n. 0 < n) layers"
  shows "\<exists>W B p'. initialize_weights g p layers = Inr (W, B, p') \<and> consistent layers W B"
proof -
  have idx: "\<forall>i\<in>set [1..<length layers]. 1 \<le> i \<and> i < length layers" by simp
  from init_loop_ok [OF pos idx, of g "[[[0]]]" "[[[0]]]" p]
  obtain W' B' p' where
    r: "init_loop g layers [1..<length layers] ([[[0]]], [[[0]]], p) = Inr ([[[0]]] @ W', [[[0]]] @ B', p')"
    and l: "length W' = length layers - 1" "length B' = length layers - 1"
    and sh: "\<forall>k<length layers - 1.
        is_mat (nat (layers ! ([1..<length layers] ! k))) (nat (layers ! ([1..<length layers] ! k - 1))) (W' ! k) \<and>
        is_mat (nat (layers ! ([1..<length layers] ! k))) 1 (B' ! k)"
    by auto
  have shape: "is_mat (nat (layers ! i)) (nat (layers ! (i - 1))) (([[0]] # W') ! i) \<and>
               is_mat (nat (layers ! i)) 1 (([[0]] # B') ! i)"
    if i1: "1 \<le> i" and i2: "i < length layers" for i
  proof -
    obtain k where k: "i = Suc k" using i1 by (cases i) simp_all
    have "k < length layers - 1" using i2 k by simp
    with sh have "is_mat (nat (layers ! ([1..<length layers] ! k))) (nat (layers ! ([1..<length layers] ! k - 1))) (W' ! k) \<and>
        is_mat (nat (layers ! ([1..<length layers] ! k))) 1 (B' ! k)" by blast
    moreover have "[1..<length layers] ! k = Suc k" using \<open>k < length layers - 1\<close> by simp
    ultimately show ?thesis using k by simp
  qed
  have "consistent layers ([[0]] # W') ([[0]] # B')"
    using assms l shape by (auto simp: consistent_def list_all_iff)
  then show ?thesis using r by (simp add: initialize_weights_def)
qed

lemma py_get_error: "py_get xs i = Inl e \<Longrightarrow> e = IndexError"
  by (simp add: py_get_def split: if_splits)

lemma randn_error: "randn g p m n = Inl e \<Longrightarrow> e = ValueError"
  by (simp add: randn_def split: if_splits)

lemma he_scale_error: "he_scale n = Inl e \<Longrightarrow> e = ZeroDivisionError"
  by (simp add: he_scale_def split: if_splits)

lemma ebind_eq_Inl:
  "ebind r f = Inl e \<longleftrightarrow> r = Inl e \<or> (\<exists>v. r = Inr v \<and> f v = Inl e)"
  by (cases r) simp_all

lemma init_loop_error:
  "init_loop g layers is (W, B, p) = Inl e \<Longrightarrow>
     e = IndexError \<or> e = ValueError \<or> e = ZeroDivisionError"
proof (induction "is" arbitrary: W B p)
  case Nil
  then show ?case by simp
next
  case (Cons i "is")
  from Cons.prems consider
      (a) "py_get layers (int i) = Inl e"
    | (b) "py_get layers (int i - 1) = Inl e"
    | (c) m n where "randn g p m n = Inl e"
    | (d) n where "he_scale n = Inl e"
    | (e) p1 m n where "randn g p1 m n = Inl e"
    | (f) W' B' p' where "init_loop g layers is (W', B', p') = Inl e"
    by (auto simp: ebind_eq_Inl split: prod.splits)
  then show ?case
  proof cases
    case a then show ?thesis by (simp add: py_get_error)
  next
    case b then show ?thesis by (simp add: py_get_error)
  next
    case c then show ?thesis by (simp add: randn_error)
  next
    case d then show ?thesis by (simp add: he_scale_error)
  next
    case e then show ?thesis by (simp add: randn_error)
  next
    case f then show ?thesis by (rule Cons.IH)
  qed
qed

lemma initialize_weights_no_configuration_error:
  "initialize_weights g p layers \<noteq> Inl ConfigurationError"
proof
  assume "initialize_weights g p layers = Inl ConfigurationError"
  then have "init_loop g layers [1..<length layers] ([[[0]]], [[[0]]], p) = Inl ConfigurationError"
    by (simp add: initialize_weights_def)
  from init_loop_error [OF this] show False by simp
qed

text \<open>
  Claim C4, as the code has it. The initializer validates nothing: on no layer-size
  sequence whatsoever, of any length and with any sizes, does it fail with
  ConfigurationError (what it can raise is the ValueError of \<open>randn\<close> on a negative size
  and the ZeroDivisionError of \<open>2/layers[i-1]\<close> on a zero size). For a layer-size
  sequence of length below 2 its loop body never runs and it returns \<open>W\<close> and \<open>B\<close>
  holding only the index-0 placeholder; for every sequence of positive sizes of length
  at least 2 it succeeds and returns \<open>W\<close>, \<open>B\<close> with the shapes of the topology.
\<close>

theorem initialize_weights_total:
  "initialize_weights g p layers \<noteq> Inl ConfigurationError \<and>
   (length layers < 2 \<longrightarrow> initialize_weights g p layers = Inr ([[[0]]], [[[0]]], p)) \<and>
   (2 \<le> length layers \<and> list_all (\<lambda>n. 0 < n) layers \<longrightarrow>
      (\<exists>W B p'. initialize_weights g p layers = Inr (W, B, p') \<and> consistent layers W B))"
proof (intro conjI impI)
  show "initialize_weights g p layers \<noteq> Inl ConfigurationError"
    by (rule initialize_weights_no_configuration_error)
next
  assume "length layers < 2"
  then show "initialize_weights g p layers = Inr ([[[0]]], [[[0]]], p)"
    by (rule initialize_weights_short)
next
  assume h: "2 \<le> length layers \<and> list_all (\<lambda>n. 0 < n) layers"
  then have "layers \<noteq> []" by auto
  then show "\<exists>W B p'. initialize_weights g p layers = Inr (W, B, p') \<and> consistent layers W B"
    using h by (intro initialize_weights_consistent) simp_all
qed

theorem initialize_weights_total_witness:
  "initialize_weights (\<lambda>n. real n) 0 [2, 1] = Inr ([[[0]], [[0, 1]]], [[[0]], [[2]]], 3) \<and>
   consistent [2, 1] [[[0]], [[0, 1]]] [[[0]], [[2]]] \<and>
   initialize_weights (\<lambda>n. real n) 0 [5] = Inr ([[[0]]], [[[0]]], 0) \<and>
   initialize_weights (\<lambda>n. real n) 0 [0, 3] = Inl ZeroDivisionError \<and>
   initialize_weights (\<lambda>n. real n) 0 [3, - 1] = Inl ValueError"
  using initialize_weights_total [where layers = "[2, 1]" and g = "\<lambda>n. real n" and p = 0]
    initialize_weights_total [where layers = "[5]" and g = "\<lambda>n. real n" and p = 0]
    initialize_weights_total [where layers = "[0, 3]" and g = "\<lambda>n. real n" and p = 0]
    initialize_weights_total [where layers = "[3, - 1]" and g = "\<lambda>n. real n" and p = 0]
  by (simp add: initialize_weights_def upt_rec py_get_def randn_def he_scale_def mscale_def)

text \<open>
  The claim as stated fails on the one-element sequence \<open>[784]\<close> and on the empty
  sequence: the initializer returns normally.
\<close>

theorem initialize_weights_short_counterexample:
  "initialize_weights (\<lambda>n. 1) 0 [784] = Inr ([[[0]]], [[[0]]], 0) \<and>
   initialize_weights (\<lambda>n. 1) 0 [] = Inr ([[[0]]], [[[0]]], 0) \<and>
   initialize_weights (\<lambda>n. 1) 0 [784] \<noteq> Inl ConfigurationError"
  by (simp add: initialize_weights_def)

section \<open>Frame and failure of the network methods\<close>

lemma epoch_loop_layers:
  "self_layers (fst (epoch_loop k L alpha X y net)) = self_layers net"
  by (induction k arbitrary: net) (auto split: prod.splits option.splits sum.splits)

text \<open>
  Claim C9. Neither \<open>train\<close> nor \<open>predict\<close> assigns \<open>self.layers\<close>: after every call,
  whether it returns or raises, the field is what it was before.
\<close>

theorem layers_immutable:
  "self_layers (fst (train net X y alpha epochs)) = self_layers net \<and>
   self_layers (fst (DenseNetwork_predict net xi)) = self_layers net"
  by (simp add: train_def DenseNetwork_predict_def epoch_loop_layers split: sum.splits)

lemma MSE_empty: "MSE W B [] y = Inl ZeroDivisionError"
  by (simp add: MSE_def)

text \<open>
  Claim C5, as the code has it. With an empty example list the baseline call of \<open>MSE\<close>
  divides by \<open>m = 0\<close>: \<open>train\<close> fails with ZeroDivisionError, before it has assigned
  anything, whatever the labels, the learning rate and the epoch count.
\<close>

theorem train_empty_dataset:
  "train net [] y alpha epochs = (net, Some ZeroDivisionError)"
  by (simp add: train_def MSE_empty)

text \<open>
  The claim as stated fails: the exception raised is not EmptyDatasetError, a name the
  code does not define.
\<close>

theorem train_empty_dataset_counterexample:
  "train ex_net10 [] [] (46 / 1000) 4 = (ex_net10, Some ZeroDivisionError) \<and>
   snd (train ex_net10 [] [] (46 / 1000) 4) \<noteq> Some EmptyDatasetError"
  by (simp add: train_def MSE_def)

section \<open>Shapes of the array operations\<close>

lemma collect_map_Inr: "collect (map Inr xs) = Inr xs"
  by (induction xs) simp_all

lemma bc1_same: "length xs = length ys \<Longrightarrow> bc1 f xs ys = Inr (map2 f xs ys)"
  by (simp add: bc1_def)

lemma is_mat_row: "is_mat r c m \<Longrightarrow> x \<in> set m \<Longrightarrow> length x = c"
  by (simp add: is_mat_def list_all_iff)

lemma is_mat_nth: "is_mat r c m \<Longrightarrow> i < r \<Longrightarrow> length (m ! i) = c"
  by (simp add: is_mat_def list_all_length)

lemma is_mat_length: "is_mat r c m \<Longrightarrow> length m = r"
  by (simp add: is_mat_def)

lemma bc2_same:
  assumes "is_mat r c a" "is_mat r c b"
  shows "bc2 f a b = Inr (ew f a b)"
proof -
  have "map (\<lambda>(x, y). bc1 f x y) (zip a b) = map (\<lambda>(x, y). Inr (map2 f x y)) (zip a b)"
  proof (rule map_cong [OF refl])
    fix p assume p: "p \<in> set (zip a b)"
    obtain x y where pxy: "p = (x, y)" by (cases p)
    have "x \<in> set a" using p pxy set_zip_leftD [of x y a b] by simp
    moreover have "y \<in> set b" using p pxy set_zip_rightD [of x y a b] by simp
    ultimately have "length x = length y"
      using assms is_mat_row [of r c a x] is_mat_row [of r c b y] by simp
    then show "(case p of (x, y) \<Rightarrow> bc1 f x y) = (case p of (x, y) \<Rightarrow> Inr (map2 f x y))"
      using pxy by (simp add: bc1_same)
  qed
  also have "\<dots> = map Inr (map2 (map2 f) a b)"
    by (simp add: case_prod_unfold)
  finally have "collect (map2 (bc1 f) a b) = Inr (map2 (map2 f) a b)"
    by (simp only: collect_map_Inr)
  then show ?thesis
    using assms by (simp add: bc2_def ew_def is_mat_def)
qed

lemma is_mat_ew:
  assumes "is_mat r c a" "is_mat r c b"
  shows "is_mat r c (ew f a b)"
proof -
  have "length row = c" if "row \<in> set (map2 (map2 f) a b)" for row
  proof -
    from that obtain x y where xy: "(x, y) \<in> set (zip a b)" and row: "row = map2 f x y"
      by auto
    have "x \<in> set a" "y \<in> set b" using xy by (auto elim: in_set_zipE)
    then show ?thesis using assms row by (simp add: is_mat_row)
  qed
  then show ?thesis
    using assms by (simp add: is_mat_def ew_def list_all_iff)
qed

lemma ncols_is_mat: "is_mat r c a \<Longrightarrow> 0 < r \<Longrightarrow> ncols a = c"
  by (cases a) (simp_all add: is_mat_def ncols_def)

lemma is_mat_matmul:
  "is_mat r c a \<Longrightarrow> is_mat c k b \<Longrightarrow> 0 < c \<Longrightarrow> is_mat r k (matmul a b)"
  by (simp add: is_mat_def matmul_def list_all_iff ncols_is_mat [of c k b])

lemma np_matmul_ok:
  "is_mat r c a \<Longrightarrow> is_mat c k b \<Longrightarrow> 0 < r \<Longrightarrow> np_matmul a b = Inr (matmul a b)"
  by (simp add: np_matmul_def ncols_is_mat [of r c a] is_mat_length)

lemma is_mat_sigmoid: "is_mat r c z \<Longrightarrow> is_mat r c (sigmoid z)"
  by (simp add: is_mat_def sigmoid_def list_all_iff)

lemma is_mat_map_map: "is_mat r c z \<Longrightarrow> is_mat r c (map (map f) z)"
  by (simp add: is_mat_def list_all_iff)

lemma is_mat_d_sigmoid: "is_mat r c z \<Longrightarrow> is_mat r c (d_sigmoid z)"
  unfolding d_sigmoid_def
  by (intro is_mat_ew is_mat_map_map is_mat_sigmoid)

lemma is_mat_smul: "is_mat r c z \<Longrightarrow> is_mat r c (smul s z)"
  by (simp add: smul_def is_mat_map_map)

lemma is_mat_transpose: "is_mat r c a \<Longrightarrow> 0 < r \<Longrightarrow> is_mat c r (transpose_m a)"
  using ncols_is_mat [of r c a]
  by (simp add: is_mat_def transpose_m_def col_def list_all_iff)

lemma np_isub_ok:
  assumes "is_mat r c a" "is_mat r c b"
  shows "np_isub a b = Inr (ew (-) a b)"
proof -
  have m: "is_mat r c (ew (-) a b)" using assms by (rule is_mat_ew)
  have "ncols (ew (-) a b) = ncols a"
  proof (cases "r = 0")
    case True
    then show ?thesis using assms by (simp add: is_mat_def ew_def)
  next
    case False
    then show ?thesis using m assms by (simp add: ncols_is_mat)
  qed
  then show ?thesis
    using m assms by (simp add: np_isub_def bc2_same [OF assms] is_mat_length)
qed

section \<open>The forward pass\<close>

lemma consistentD:
  assumes "consistent layers W B" "1 \<le> i" "i < length layers"
  shows "is_mat (nat (layers ! i)) (nat (layers ! (i - 1))) (W ! i)"
    and "is_mat (nat (layers ! i)) 1 (B ! i)"
    and "0 < nat (layers ! i)" and "0 < nat (layers ! (i - 1))"
  using assms by (simp_all add: consistent_def list_all_iff list_all_length)

lemma forward_loop_inv:
  assumes cons: "consistent layers W B"
    and "1 \<le> k" "k \<le> n" "n \<le> length layers"
    and "length Z = k" "length A = k"
    and "is_mat (nat (layers ! (k - 1))) 1 (A ! (k - 1))"
  shows "\<exists>Z' A'. forward_loop W B [k..<n] (Z, A) = Inr (Z', A') \<and>
           length Z' = n \<and> length A' = n \<and> take k Z' = Z \<and> take k A' = A \<and>
           (\<forall>i. k \<le> i \<and> i < n \<longrightarrow>
              Z' ! i = Arr (ew (+) (matmul (W ! i) (A' ! (i - 1))) (B ! i)) \<and>
              A' ! i = sigmoid (ew (+) (matmul (W ! i) (A' ! (i - 1))) (B ! i)) \<and>
              is_mat (nat (layers ! i)) 1 (A' ! i))"
  using assms(2-)
proof (induction "n - k" arbitrary: k Z A)
  case 0
  then have "k = n" by simp
  then show ?case using "0.prems" by auto
next
  case (Suc d)
  then have kn: "k < n" by simp
  have k1: "1 \<le> k" and kl: "k < length layers" using Suc.prems kn by simp_all
  have lW: "length W = length layers" and lB: "length B = length layers"
    using cons by (simp_all add: consistent_def)
  note sh = consistentD [OF cons k1 kl]
  define a where "a = A ! (k - 1)"
  define z where "z = ew (+) (matmul (W ! k) a) (B ! k)"
  have ma: "is_mat (nat (layers ! (k - 1))) 1 a" using Suc.prems by (simp add: a_def)
  have gW: "py_get W (int k) = Inr (W ! k)" using kl lW by (simp add: py_get_nat)
  have gB: "py_get B (int k) = Inr (B ! k)" using kl lB by (simp add: py_get_nat)
  have gA: "py_get A (int k - 1) = Inr a"
    using k1 Suc.prems(5) by (auto simp: py_get_def a_def nat_diff_distrib)
  have mm: "np_matmul (W ! k) a = Inr (matmul (W ! k) a)"
    using sh(1) ma sh(3) by (rule np_matmul_ok)
  have mmm: "is_mat (nat (layers ! k)) 1 (matmul (W ! k) a)"
    using sh(1) ma sh(4) by (rule is_mat_matmul)
  have add: "bc2 (+) (matmul (W ! k) a) (B ! k) = Inr z"
    unfolding z_def using mmm sh(2) by (rule bc2_same)
  have mz: "is_mat (nat (layers ! k)) 1 z"
    unfolding z_def using mmm sh(2) by (rule is_mat_ew)
  have step: "forward_loop W B [k..<n] (Z, A) =
              forward_loop W B [Suc k..<n] (Z @ [Arr z], A @ [sigmoid z])"
    using kn by (simp add: upt_conv_Cons gW gA mm gB add)
  have d: "d = n - Suc k" using Suc.hyps(2) by simp
  have "\<exists>Z' A'. forward_loop W B [Suc k..<n] (Z @ [Arr z], A @ [sigmoid z]) = Inr (Z', A') \<and>
           length Z' = n \<and> length A' = n \<and> take (Suc k) Z' = Z @ [Arr z] \<and>
           take (Suc k) A' = A @ [sigmoid z] \<and>
           (\<forall>i. Suc k \<le> i \<and> i < n \<longrightarrow>
              Z' ! i = Arr (ew (+) (matmul (W ! i) (A' ! (i - 1))) (B ! i)) \<and>
              A' ! i = sigmoid (ew (+) (matmul (W ! i) (A' ! (i - 1))) (B ! i)) \<and>
              is_mat (nat (layers ! i)) 1 (A' ! i))"
  proof (rule Suc.hyps(1) [OF d])
    show "1 \<le> Suc k" by simp
    show "Suc k \<le> n" using kn by simp
    show "n \<le> length layers" using Suc.prems by simp
    show "length (Z @ [Arr z]) = Suc k" using Suc.prems by simp
    show "length (A @ [sigmoid z]) = Suc k" using Suc.prems by simp
    show "is_mat (nat (layers ! (Suc k - 1))) 1 ((A @ [sigmoid z]) ! (Suc k - 1))"
      using Suc.prems(5) mz by (simp add: nth_append is_mat_sigmoid)
  qed
  then obtain Z' A' where
    r: "forward_loop W B [Suc k..<n] (Z @ [Arr z], A @ [sigmoid z]) = Inr (Z', A')"
    and l: "length Z' = n" "length A' = n"
    and tZ: "take (Suc k) Z' = Z @ [Arr z]" and tA: "take (Suc k) A' = A @ [sigmoid z]"
    and rest: "\<forall>i. Suc k \<le> i \<and> i < n \<longrightarrow>
              Z' ! i = Arr (ew (+) (matmul (W ! i) (A' ! (i - 1))) (B ! i)) \<and>
              A' ! i = sigmoid (ew (+) (matmul (W ! i) (A' ! (i - 1))) (B ! i)) \<and>
              is_mat (nat (layers ! i)) 1 (A' ! i)"
    by blast
  have nthA: "A' ! j = (A @ [sigmoid z]) ! j" if "j < Suc k" for j
    using that tA nth_take [of j "Suc k" A'] by simp
  have nthZ: "Z' ! j = (Z @ [Arr z]) ! j" if "j < Suc k" for j
    using that tZ nth_take [of j "Suc k" Z'] by simp
  have Ak: "A' ! k = sigmoid z" using nthA [of k] Suc.prems(5) by (simp add: nth_append)
  have Zk: "Z' ! k = Arr z" using nthZ [of k] Suc.prems(4) by (simp add: nth_append)
  have Ap: "A' ! (k - 1) = a" using nthA [of "k - 1"] k1 Suc.prems(5) by (simp add: nth_append a_def)
  have tk: "take k Z' = Z" "take k A' = A"
  proof -
    have "take k (take (Suc k) Z') = Z" using tZ Suc.prems(4) by simp
    then show "take k Z' = Z" by (simp add: min_def)
    have "take k (take (Suc k) A') = A" using tA Suc.prems(5) by simp
    then show "take k A' = A" by (simp add: min_def)
  qed
  have all: "Z' ! i = Arr (ew (+) (matmul (W ! i) (A' ! (i - 1))) (B ! i)) \<and>
             A' ! i = sigmoid (ew (+) (matmul (W ! i) (A' ! (i - 1))) (B ! i)) \<and>
             is_mat (nat (layers ! i)) 1 (A' ! i)" if "k \<le> i \<and> i < n" for i
  proof (cases "i = k")
    case True
    then show ?thesis using Ak Zk Ap mz by (simp add: z_def is_mat_sigmoid)
  next
    case False
    then have "Suc k \<le> i \<and> i < n" using that by simp
    then show ?thesis using rest by blast
  qed
  have res: "forward_loop W B [k..<n] (Z, A) = Inr (Z', A')" using step r by simp
  show ?case
    using res l tk all by blast
qed

lemma forward_loop_length:
  "forward_loop W B is (Z, A) = Inr (Z', A') \<Longrightarrow>
     length Z' = length Z + length is \<and> length A' = length A + length is"
proof (induction "is" arbitrary: Z A)
  case Nil
  then show ?case by simp
next
  case (Cons i "is")
  from Cons.prems obtain z where
    "forward_loop W B is (Z @ [Arr z], A @ [sigmoid z]) = Inr (Z', A')"
    by (auto simp: ebind_eq_Inr)
  from Cons.IH [OF this] show ?case by simp
qed

lemma py_get_last: "xs \<noteq> [] \<Longrightarrow> py_get xs (- 1) = Inr (last xs)"
  by (cases xs rule: rev_cases) (simp_all add: py_get_def nat_add_distrib)

lemma forward_pass_modes:
  "case forward_pass W B xi False of
     Inl e \<Rightarrow> forward_pass W B xi True = Inl e
   | Inr (Full Z A) \<Rightarrow>
       length A = max 1 (length W) \<and> forward_pass W B xi True = Inr (Vec (last A)) \<and>
       predict W B xi = np_argmax (last A)
   | Inr (Vec v) \<Rightarrow> False"
proof (cases "forward_loop W B [1..<length W] ([Placeholder], [xi])")
  case (Inl e)
  then show ?thesis by (simp add: forward_pass_def)
next
  case (Inr ZA)
  obtain Z A where ZA: "ZA = (Z, A)" by (cases ZA)
  from forward_loop_length [OF Inr [unfolded ZA]]
  have len: "length A = 1 + (length W - 1)" by simp
  then have ne: "A \<noteq> []" by auto
  have len': "length A = max 1 (length W)" using len by (auto simp: max_def)
  show ?thesis
    using Inr ZA py_get_last [OF ne]
    by (simp add: forward_pass_def predict_def len')
qed

text \<open>
  Claim C10. Whatever \<open>W\<close>, \<open>B\<close> and the input are: if the full mode raises, the
  prediction-only mode raises the same exception; if the full mode returns \<open>(Z, A)\<close>
  (it never returns a bare vector), then \<open>A\<close> has \<open>max(1, len(W))\<close> entries, the
  prediction-only mode returns the last of them, and \<open>predict\<close> is the argmax of that
  same vector.
\<close>

theorem forward_modes_agree:
  "case forward_pass W B xi False of
     Inl e \<Rightarrow> forward_pass W B xi True = Inl e
   | Inr (Full Z A) \<Rightarrow>
       length A = max 1 (length W) \<and> forward_pass W B xi True = Inr (Vec (last A)) \<and>
       predict W B xi = np_argmax (last A)
   | Inr (Vec v) \<Rightarrow> False"
  by (rule forward_pass_modes)

lemma forward_pass_full:
  assumes cons: "consistent layers W B" and x: "is_mat (nat (layers ! 0)) 1 xi"
  shows "\<exists>Z A. forward_pass W B xi False = Inr (Full Z A) \<and>
           length Z = length layers \<and> length A = length layers \<and> A ! 0 = xi \<and>
           (\<forall>i. 1 \<le> i \<and> i < length layers \<longrightarrow>
              Z ! i = Arr (ew (+) (matmul (W ! i) (A ! (i - 1))) (B ! i)) \<and>
              A ! i = sigmoid (ew (+) (matmul (W ! i) (A ! (i - 1))) (B ! i)) \<and>
              is_mat (nat (layers ! i)) 1 (A ! i))"
proof -
  have lW: "length W = length layers" and ne: "1 \<le> length layers"
    using cons by (auto simp: consistent_def Suc_le_eq)
  have "\<exists>Z' A'. forward_loop W B [1..<length layers] ([Placeholder], [xi]) = Inr (Z', A') \<and>
           length Z' = length layers \<and> length A' = length layers \<and>
           take 1 Z' = [Placeholder] \<and> take 1 A' = [xi] \<and>
           (\<forall>i. 1 \<le> i \<and> i < length layers \<longrightarrow>
              Z' ! i = Arr (ew (+) (matmul (W ! i) (A' ! (i - 1))) (B ! i)) \<and>
              A' ! i = sigmoid (ew (+) (matmul (W ! i) (A' ! (i - 1))) (B ! i)) \<and>
              is_mat (nat (layers ! i)) 1 (A' ! i))"
    by (rule forward_loop_inv [OF cons]) (use ne x in simp_all)
  then obtain Z A where
    r: "forward_loop W B [1..<length layers] ([Placeholder], [xi]) = Inr (Z, A)"
    and l: "length Z = length layers" "length A = length layers"
    and t: "take 1 A = [xi]"
    and rest: "\<forall>i. 1 \<le> i \<and> i < length layers \<longrightarrow>
              Z ! i = Arr (ew (+) (matmul (W ! i) (A ! (i - 1))) (B ! i)) \<and>
              A ! i = sigmoid (ew (+) (matmul (W ! i) (A ! (i - 1))) (B ! i)) \<and>
              is_mat (nat (layers ! i)) 1 (A ! i)"
    by blast
  have "A ! 0 = xi" using t l ne by (cases A) simp_all
  moreover have "forward_pass W B xi False = Inr (Full Z A)"
    using r lW by (simp add: forward_pass_def)
  ultimately show ?thesis using l rest by blast
qed

lemma forward_pass_last:
  assumes cons: "consistent layers W B" and x: "is_mat (nat (layers ! 0)) 1 xi"
    and fp: "forward_pass W B xi False = Inr (Full Z A)"
  shows "is_mat (nat (last layers)) 1 (last A)"
proof -
  from forward_pass_full [OF cons x] fp
  have l: "length A = length layers"
    and rest: "\<forall>i. 1 \<le> i \<and> i < length layers \<longrightarrow> is_mat (nat (layers ! i)) 1 (A ! i)"
    and a0: "A ! 0 = xi"
    by auto
  have ne: "layers \<noteq> []" using cons by (simp add: consistent_def)
  then have neA: "A \<noteq> []" using l by auto
  have "is_mat (nat (layers ! (length layers - 1))) 1 (A ! (length layers - 1))"
  proof (cases "length layers = 1")
    case True
    then show ?thesis using a0 x by simp
  next
    case False
    then have "1 \<le> length layers - 1 \<and> length layers - 1 < length layers"
      using ne by (cases layers; cases "tl layers") auto
    then show ?thesis using rest by blast
  qed
  then show ?thesis using ne neA l by (simp add: last_conv_nth)
qed

text \<open>
  Claim C2. For weights and biases consistent with a topology and an input column
  vector of length \<open>layers[0]\<close>, the forward pass returns: \<open>A[0]\<close> is the input, and for
  every \<open>i\<close> from 1 to \<open>L\<close>, \<open>Z[i] = W[i] A[i-1] + B[i]\<close> and \<open>A[i] = sigmoid(Z[i])\<close>;
  the final activation has shape \<open>(layers[L], 1)\<close> and is what the prediction-only mode
  returns.
\<close>

theorem forward_pass_correct:
  assumes "consistent layers W B" and "is_mat (nat (layers ! 0)) 1 xi"
  shows "\<exists>Z A. forward_pass W B xi False = Inr (Full Z A) \<and>
           length Z = length layers \<and> length A = length layers \<and> A ! 0 = xi \<and>
           (\<forall>i. 1 \<le> i \<and> i < length layers \<longrightarrow>
              Z ! i = Arr (ew (+) (matmul (W ! i) (A ! (i - 1))) (B ! i)) \<and>
              A ! i = sigmoid (ew (+) (matmul (W ! i) (A ! (i - 1))) (B ! i))) \<and>
           is_mat (nat (last layers)) 1 (last A) \<and>
           forward_pass W B xi True = Inr (Vec (last A))"
proof -
  from forward_pass_full [OF assms] obtain Z A where
    fp: "forward_pass W B xi False = Inr (Full Z A)"
    and l: "length Z = length layers" "length A = length layers" "A ! 0 = xi"
    and rest: "\<forall>i. 1 \<le> i \<and> i < length layers \<longrightarrow>
              Z ! i = Arr (ew (+) (matmul (W ! i) (A ! (i - 1))) (B ! i)) \<and>
              A ! i = sigmoid (ew (+) (matmul (W ! i) (A ! (i - 1))) (B ! i)) \<and>
              is_mat (nat (layers ! i)) 1 (A ! i)"
    by blast
  have v: "forward_pass W B xi True = Inr (Vec (last A))"
    using forward_pass_modes [of W B xi] fp by simp
  show ?thesis
    using fp l rest forward_pass_last [OF assms fp] v by blast
qed

theorem forward_pass_correct_witness:
  "forward_pass ex_W3 ex_B3 [[0]] False =
     Inr (Full [Placeholder, Arr [[0]], Arr [[5 / 2]]]
               [[[0]], [[1 / 2]], [[1 / (1 + exp (- (5 / 2)))]]])"
  using forward_pass_correct [of "[1, 1, 1]" ex_W3 ex_B3 "[[0]]"]
  by (simp add: ex_W3_def ex_B3_def forward_pass_def upt_rec py_get_def np_matmul_def
      matmul_def ncols_def col_def dot_def bc2_def bc1_def sigmoid_def)

section \<open>Prediction\<close>

lemma argmax_scan_spec:
  assumes "best < length pre" "\<forall>k<length pre. pre ! k \<le> pre ! best"
    and "\<forall>k<best. pre ! k < pre ! best"
  shows "argmax_scan xs (length pre) best (pre ! best) < length (pre @ xs) \<and>
         (\<forall>k<length (pre @ xs).
            (pre @ xs) ! k \<le> (pre @ xs) ! argmax_scan xs (length pre) best (pre ! best)) \<and>
         (\<forall>k<argmax_scan xs (length pre) best (pre ! best).
            (pre @ xs) ! k < (pre @ xs) ! argmax_scan xs (length pre) best (pre ! best))"
  using assms
proof (induction xs arbitrary: pre best)
  case Nil
  then show ?case by simp
next
  case (Cons x xs)
  let ?pre = "pre @ [x]"
  show ?case
  proof (cases "pre ! best < x")
    case True
    have a1: "length pre < length ?pre" by simp
    have a2: "\<forall>k<length ?pre. ?pre ! k \<le> ?pre ! length pre"
    proof (intro allI impI)
      fix k assume "k < length ?pre"
      then consider "k < length pre" | "k = length pre" by fastforce
      then show "?pre ! k \<le> ?pre ! length pre"
      proof cases
        case 1
        then have "pre ! k \<le> pre ! best" using Cons.prems(2) by blast
        then show ?thesis using True 1 by (simp add: nth_append)
      next
        case 2
        then show ?thesis by simp
      qed
    qed
    have a3: "\<forall>k<length pre. ?pre ! k < ?pre ! length pre"
    proof (intro allI impI)
      fix k assume k: "k < length pre"
      then have "pre ! k \<le> pre ! best" using Cons.prems(2) by blast
      then show "?pre ! k < ?pre ! length pre" using True k by (simp add: nth_append)
    qed
    from Cons.IH [of "length pre" ?pre, OF a1 a2 a3] True
    show ?thesis by simp
  next
    case False
    have b1: "best < length ?pre" using Cons.prems(1) by simp
    have eq: "?pre ! best = pre ! best" using Cons.prems(1) by (simp add: nth_append)
    have b2: "\<forall>k<length ?pre. ?pre ! k \<le> ?pre ! best"
    proof (intro allI impI)
      fix k assume "k < length ?pre"
      then consider "k < length pre" | "k = length pre" by fastforce
      then show "?pre ! k \<le> ?pre ! best"
      proof cases
        case 1
        then show ?thesis using Cons.prems(2) eq by (simp add: nth_append)
      next
        case 2
        then show ?thesis using False eq by simp
      qed
    qed
    have b3: "\<forall>k<best. ?pre ! k < ?pre ! best"
    proof (intro allI impI)
      fix k assume k: "k < best"
      then have "k < length pre" using Cons.prems(1) by simp
      then show "?pre ! k < ?pre ! best" using Cons.prems(3) k eq by (simp add: nth_append)
    qed
    from Cons.IH [of best ?pre, OF b1 b2 b3] False eq
    show ?thesis by simp
  qed
qed

lemma np_argmax_spec:
  assumes "concat m \<noteq> []"
  shows "\<exists>j. np_argmax m = Inr j \<and> j < length (concat m) \<and>
           (\<forall>k<length (concat m). concat m ! k \<le> concat m ! j) \<and>
           (\<forall>k<j. concat m ! k < concat m ! j)"
proof -
  from assms obtain x xs where c: "concat m = x # xs" by (cases "concat m") simp_all
  have "argmax_scan xs (length [x]) 0 ([x] ! 0) < length ([x] @ xs) \<and>
         (\<forall>k<length ([x] @ xs).
            ([x] @ xs) ! k \<le> ([x] @ xs) ! argmax_scan xs (length [x]) 0 ([x] ! 0)) \<and>
         (\<forall>k<argmax_scan xs (length [x]) 0 ([x] ! 0).
            ([x] @ xs) ! k < ([x] @ xs) ! argmax_scan xs (length [x]) 0 ([x] ! 0))"
    by (rule argmax_scan_spec) simp_all
  then show ?thesis
    using c by (simp add: np_argmax_def)
qed

lemma concat_column: "is_mat n 1 m \<Longrightarrow> concat m = map (\<lambda>r. r ! 0) m"
proof (induction m arbitrary: n)
  case Nil
  then show ?case by simp
next
  case (Cons r m)
  then have "length r = 1" and "is_mat (length m) 1 m" by (simp_all add: is_mat_def)
  then show ?case using Cons.IH [of "length m"] by (cases r) simp_all
qed

lemma DenseNetwork_predict_eq:
  "DenseNetwork_predict net xi = (net, predict (self_W net) (self_B net) xi)"
  by (simp add: DenseNetwork_predict_def predict_def)

text \<open>
  Claim C7. For weights and biases consistent with a topology and an input column
  vector of length \<open>layers[0]\<close>, \<open>predict\<close> (the function and the method alike) returns an
  index \<open>j\<close> of the final activation vector such that no entry is greater than entry
  \<open>j\<close> and every entry before \<open>j\<close> is strictly smaller: the maximum, and among equal
  maxima the lowest index.
\<close>

theorem predict_argmax:
  assumes "consistent layers W B" and "is_mat (nat (layers ! 0)) 1 xi"
  shows "\<exists>Z A j. forward_pass W B xi False = Inr (Full Z A) \<and>
           predict W B xi = Inr j \<and>
           snd (DenseNetwork_predict
                  \<lparr>self_layers = layers, self_W = W, self_B = B, self_errors = h\<rparr> xi) = Inr j \<and>
           j < length (last A) \<and>
           (\<forall>k<length (last A). last A ! k ! 0 \<le> last A ! j ! 0) \<and>
           (\<forall>k<j. last A ! k ! 0 < last A ! j ! 0)"
proof -
  from forward_pass_full [OF assms] obtain Z A where
    fp: "forward_pass W B xi False = Inr (Full Z A)" by blast
  have m: "is_mat (nat (last layers)) 1 (last A)" by (rule forward_pass_last [OF assms fp])
  have pos: "0 < last layers"
    using assms(1) by (auto simp: consistent_def list_all_iff)
  have c: "concat (last A) = map (\<lambda>r. r ! 0) (last A)" by (rule concat_column [OF m])
  have len: "length (last A) = nat (last layers)" using m by (simp add: is_mat_def)
  then have ne: "concat (last A) \<noteq> []" using pos c by auto
  from np_argmax_spec [OF ne] obtain j where
    j: "np_argmax (last A) = Inr j" "j < length (concat (last A))"
      "\<forall>k<length (concat (last A)). concat (last A) ! k \<le> concat (last A) ! j"
      "\<forall>k<j. concat (last A) ! k < concat (last A) ! j"
    by blast
  have p: "predict W B xi = Inr j"
    using forward_pass_modes [of W B xi] fp j(1) by simp
  have jl: "j < length (last A)" using j(2) c by simp
  have le: "\<forall>k<length (last A). last A ! k ! 0 \<le> last A ! j ! 0"
    using j(3) jl c by simp
  have lt: "\<forall>k<j. last A ! k ! 0 < last A ! j ! 0"
    using j(4) jl c by simp
  show ?thesis
    using fp p jl le lt by (simp add: DenseNetwork_predict_eq)
qed

theorem predict_argmax_witness:
  "predict ex_W2 ex_B2 [[1]] = Inr 0 \<and>
   forward_pass ex_W2 ex_B2 [[1]] True =
     Inr (Vec [[1 / (1 + exp (- 1))], [1 / (1 + exp (- 1))], [1 / (1 + exp (- 1))]])"
  using predict_argmax [of "[1, 3]" ex_W2 ex_B2 "[[1]]" None]
  by (simp add: ex_W2_def ex_B2_def predict_def forward_pass_def upt_rec py_get_def np_matmul_def
      matmul_def ncols_def col_def dot_def bc2_def bc1_def sigmoid_def np_argmax_def)

section \<open>Backpropagation and the update\<close>

lemma is_mat_sigmoid_iff: "is_mat r c (sigmoid z) \<longleftrightarrow> is_mat r c z"
  by (simp add: is_mat_def sigmoid_def list_all_iff)

lemma forward_pass_fwd_ok:
  assumes cons: "consistent layers W B" and x: "is_mat (nat (layers ! 0)) 1 xi"
    and fp: "forward_pass W B xi False = Inr (Full Z A)"
  shows "fwd_ok layers Z A"
proof -
  from forward_pass_full [OF cons x] fp
  have l: "length Z = length layers" "length A = length layers" and a0: "A ! 0 = xi"
    and rest: "\<forall>i. 1 \<le> i \<and> i < length layers \<longrightarrow>
              Z ! i = Arr (ew (+) (matmul (W ! i) (A ! (i - 1))) (B ! i)) \<and>
              A ! i = sigmoid (ew (+) (matmul (W ! i) (A ! (i - 1))) (B ! i)) \<and>
              is_mat (nat (layers ! i)) 1 (A ! i)"
    by auto
  have A: "is_mat (nat (layers ! i)) 1 (A ! i)" if "i < length layers" for i
  proof (cases "i = 0")
    case True
    then show ?thesis using a0 x by simp
  next
    case False
    then have "1 \<le> i \<and> i < length layers" using that by simp
    then show ?thesis using rest by blast
  qed
  have Zs: "\<exists>z. Z ! i = Arr z \<and> is_mat (nat (layers ! i)) 1 z"
    if i: "1 \<le> i \<and> i < length layers" for i
  proof -
    let ?z = "ew (+) (matmul (W ! i) (A ! (i - 1))) (B ! i)"
    have "Z ! i = Arr ?z" and "A ! i = sigmoid ?z" and "is_mat (nat (layers ! i)) 1 (A ! i)"
      using rest i by blast+
    then have "is_mat (nat (layers ! i)) 1 ?z" by (simp add: is_mat_sigmoid_iff)
    with \<open>Z ! i = Arr ?z\<close> show ?thesis by blast
  qed
  show ?thesis unfolding fwd_ok_def using l A Zs by blast
qed

lemma spec_delta_shape:
  assumes cons: "consistent layers W B" and ok: "fwd_ok layers Z A"
    and y: "is_mat (nat (layers ! L)) 1 y" and L: "L = length layers - 1"
    and i: "1 \<le> i" "i \<le> L"
  shows "is_mat (nat (layers ! i)) 1 (spec_delta W Z A y L i)"
  using i
proof (induction "L - i" arbitrary: i)
  case 0
  then have iL: "i = L" by simp
  have Ll: "L < length layers" "1 \<le> L" using 0 L by simp_all
  from ok Ll obtain z where z: "Z ! L = Arr z" "is_mat (nat (layers ! L)) 1 z"
    unfolding fwd_ok_def by blast
  have a: "is_mat (nat (layers ! L)) 1 (A ! L)" using ok Ll unfolding fwd_ok_def by blast
  have "is_mat (nat (layers ! L)) 1 (ew (*) (ew (-) (A ! L) y) (d_sigmoid z))"
    by (intro is_mat_ew is_mat_d_sigmoid a y z(2))
  then show ?case using iL z(1) by (simp add: spec_delta.simps [of W Z A y L L] arr_of_def)
next
  case (Suc d)
  then have iL: "i < L" by simp
  have il: "i < length layers" "Suc i < length layers" "1 \<le> Suc i" using iL L by simp_all
  from ok il Suc.prems obtain z where z: "Z ! i = Arr z" "is_mat (nat (layers ! i)) 1 z"
    unfolding fwd_ok_def by blast
  have IH: "is_mat (nat (layers ! Suc i)) 1 (spec_delta W Z A y L (Suc i))"
    by (rule Suc.hyps(1)) (use Suc.hyps(2) iL in simp_all)
  note sh = consistentD [OF cons il(3) il(2)]
  have w: "is_mat (nat (layers ! Suc i)) (nat (layers ! i)) (W ! Suc i)" using sh(1) by simp
  have t: "is_mat (nat (layers ! i)) (nat (layers ! Suc i)) (transpose_m (W ! Suc i))"
    using w sh(3) by (rule is_mat_transpose)
  have m: "is_mat (nat (layers ! i)) 1 (matmul (transpose_m (W ! Suc i)) (spec_delta W Z A y L (Suc i)))"
    using t IH sh(3) by (rule is_mat_matmul)
  have "is_mat (nat (layers ! i)) 1
     (ew (*) (matmul (transpose_m (W ! Suc i)) (spec_delta W Z A y L (Suc i))) (d_sigmoid z))"
    by (intro is_mat_ew is_mat_d_sigmoid m z(2))
  then show ?case using iL z(1) by (simp add: spec_delta.simps [of W Z A y L i] arr_of_def)
qed

lemma delta_loop_spec:
  assumes cons: "consistent layers W B" and ok: "fwd_ok layers Z A"
    and y: "is_mat (nat (layers ! L)) 1 y" and L: "L = length layers - 1"
    and m: "1 \<le> m" "m \<le> L"
    and ds: "\<forall>i. m \<le> i \<and> i \<le> L \<longrightarrow> ds (int i) = Some (spec_delta W Z A y L i)"
  shows "\<exists>ds'. delta_loop W Z (map int (rev [1..<m])) ds = Inr ds' \<and>
           (\<forall>i. 1 \<le> i \<and> i \<le> L \<longrightarrow> ds' (int i) = Some (spec_delta W Z A y L i))"
  using m ds
proof (induction m arbitrary: ds)
  case 0
  then show ?case by simp
next
  case (Suc k)
  show ?case
  proof (cases "k = 0")
    case True
    then show ?thesis using Suc.prems by simp
  next
    case False
    then have k1: "1 \<le> k" and kL: "k < L" "k \<le> L" using Suc.prems by simp_all
    have il: "k < length layers" "Suc k < length layers" "1 \<le> Suc k" using kL L by simp_all
    have lW: "length W = length layers" using cons by (simp add: consistent_def)
    have lZ: "length Z = length layers" using ok by (simp add: fwd_ok_def)
    from ok il k1 obtain z where z: "Z ! k = Arr z" "is_mat (nat (layers ! k)) 1 z"
      unfolding fwd_ok_def by blast
    let ?d = "spec_delta W Z A y L (Suc k)"
    have dsh: "is_mat (nat (layers ! Suc k)) 1 ?d"
      by (rule spec_delta_shape [OF cons ok y L]) (use Suc.prems in simp_all)
    note sh = consistentD [OF cons il(3) il(2)]
    have w: "is_mat (nat (layers ! Suc k)) (nat (layers ! k)) (W ! Suc k)" using sh(1) by simp
    have t: "is_mat (nat (layers ! k)) (nat (layers ! Suc k)) (transpose_m (W ! Suc k))"
      using w sh(3) by (rule is_mat_transpose)
    have pos: "0 < nat (layers ! k)" using sh(4) by simp
    have gW: "py_get W (int k + 1) = Inr (W ! Suc k)"
      using il lW py_get_nat [of "Suc k" W] by (simp add: add.commute)
    have gd: "dict_get ds (int k + 1) = Inr ?d"
      using Suc.prems(3) [rule_format, of "Suc k"] Suc.prems(2) by (simp add: dict_get_def add.commute)
    have mm: "np_matmul (transpose_m (W ! Suc k)) ?d = Inr (matmul (transpose_m (W ! Suc k)) ?d)"
      using t dsh pos by (rule np_matmul_ok)
    have msh: "is_mat (nat (layers ! k)) 1 (matmul (transpose_m (W ! Suc k)) ?d)"
      using t dsh sh(3) by (rule is_mat_matmul)
    have gZ: "py_get Z (int k) = Inr (Arr z)" using il lZ z by (simp add: py_get_nat)
    have mul: "bc2 (*) (matmul (transpose_m (W ! Suc k)) ?d) (d_sigmoid z) =
               Inr (ew (*) (matmul (transpose_m (W ! Suc k)) ?d) (d_sigmoid z))"
      using msh is_mat_d_sigmoid [OF z(2)] by (rule bc2_same)
    have new: "ew (*) (matmul (transpose_m (W ! Suc k)) ?d) (d_sigmoid z) = spec_delta W Z A y L k"
      using kL z(1) by (simp add: spec_delta.simps [of W Z A y L k] arr_of_def)
    have step: "delta_loop W Z (map int (rev [1..<Suc k])) ds =
                delta_loop W Z (map int (rev [1..<k])) (ds(int k \<mapsto> spec_delta W Z A y L k))"
      using k1 by (simp add: gW gd mm gZ d_sigmoid_obj_def mul new)
    have ds': "\<forall>i. k \<le> i \<and> i \<le> L \<longrightarrow>
        (ds(int k \<mapsto> spec_delta W Z A y L k)) (int i) = Some (spec_delta W Z A y L i)"
      using Suc.prems(3) by auto
    from Suc.IH [OF k1 kL(2) ds'] show ?thesis unfolding step .
  qed
qed

lemma update_loop_ok:
  assumes "distinct is"
    and "\<forall>i\<in>set is. 1 \<le> i \<and> i < length W \<and> i < length B \<and> i \<le> length A \<and>
           ds (int i) = Some (dl i) \<and> is_mat (r i) 1 (dl i) \<and>
           is_mat (r (i - 1)) 1 (A ! (i - 1)) \<and> is_mat (r i) (r (i - 1)) (W ! i) \<and>
           is_mat (r i) 1 (B ! i) \<and> 0 < r i \<and> 0 < r (i - 1)"
  shows "\<exists>W' B'. update_loop alpha ds A (map int is) (W, B) = ((W', B'), None) \<and>
           length W' = length W \<and> length B' = length B \<and>
           (\<forall>j. W' ! j = (if j \<in> set is
                           then ew (-) (W ! j) (matmul (smul alpha (dl j)) (transpose_m (A ! (j - 1))))
                           else W ! j) \<and>
                B' ! j = (if j \<in> set is then ew (-) (B ! j) (smul alpha (dl j)) else B ! j))"
  using assms
proof (induction "is" arbitrary: W B)
  case Nil
  then show ?case by simp
next
  case (Cons i "is")
  have h: "1 \<le> i" "i < length W" "i < length B" "i \<le> length A"
    "ds (int i) = Some (dl i)" "is_mat (r i) 1 (dl i)"
    "is_mat (r (i - 1)) 1 (A ! (i - 1))" "is_mat (r i) (r (i - 1)) (W ! i)"
    "is_mat (r i) 1 (B ! i)" "0 < r i" "0 < r (i - 1)"
    using Cons.prems(2) by simp_all
  have notin: "i \<notin> set is" and dist: "distinct is" using Cons.prems(1) by simp_all
  let ?g = "matmul (smul alpha (dl i)) (transpose_m (A ! (i - 1)))"
  let ?w = "ew (-) (W ! i) ?g"
  let ?b = "ew (-) (B ! i) (smul alpha (dl i))"
  have sd: "is_mat (r i) 1 (smul alpha (dl i))" using h(6) by (rule is_mat_smul)
  have ta: "is_mat 1 (r (i - 1)) (transpose_m (A ! (i - 1)))"
    using h(7) h(11) by (rule is_mat_transpose)
  have mm: "np_matmul (smul alpha (dl i)) (transpose_m (A ! (i - 1))) = Inr ?g"
    using sd ta h(10) by (rule np_matmul_ok)
  have gsh: "is_mat (r i) (r (i - 1)) ?g"
    using sd ta by (rule is_mat_matmul) simp
  have subw: "np_isub (W ! i) ?g = Inr ?w" using h(8) gsh by (rule np_isub_ok)
  have subb: "np_isub (B ! i) (smul alpha (dl i)) = Inr ?b" using h(9) sd by (rule np_isub_ok)
  have wsh: "is_mat (r i) (r (i - 1)) ?w" using h(8) gsh by (rule is_mat_ew)
  have bsh: "is_mat (r i) 1 ?b" using h(9) sd by (rule is_mat_ew)
  have gW: "py_get W (int i) = Inr (W ! i)" using h(2) by (rule py_get_nat)
  have gB: "py_get B (int i) = Inr (B ! i)" using h(3) by (rule py_get_nat)
  have gA: "py_get A (int i - 1) = Inr (A ! (i - 1))" using h(1) h(4) by (rule py_get_pred)
  have gd: "dict_get ds (int i) = Inr (dl i)" using h(5) by (simp add: dict_get_def)
  have step: "update_loop alpha ds A (map int (i # is)) (W, B) =
              update_loop alpha ds A (map int is) (W[i := ?w], B[i := ?b])"
    using gA mm subw subb by (simp add: gW gd gB)
  have pre: "\<forall>k\<in>set is. 1 \<le> k \<and> k < length (W[i := ?w]) \<and> k < length (B[i := ?b]) \<and>
           k \<le> length A \<and> ds (int k) = Some (dl k) \<and> is_mat (r k) 1 (dl k) \<and>
           is_mat (r (k - 1)) 1 (A ! (k - 1)) \<and> is_mat (r k) (r (k - 1)) (W[i := ?w] ! k) \<and>
           is_mat (r k) 1 (B[i := ?b] ! k) \<and> 0 < r k \<and> 0 < r (k - 1)"
  proof
    fix k assume k: "k \<in> set is"
    then have "k \<noteq> i" using notin by auto
    then have "W[i := ?w] ! k = W ! k" "B[i := ?b] ! k = B ! k" by simp_all
    then show "1 \<le> k \<and> k < length (W[i := ?w]) \<and> k < length (B[i := ?b]) \<and>
           k \<le> length A \<and> ds (int k) = Some (dl k) \<and> is_mat (r k) 1 (dl k) \<and>
           is_mat (r (k - 1)) 1 (A ! (k - 1)) \<and> is_mat (r k) (r (k - 1)) (W[i := ?w] ! k) \<and>
           is_mat (r k) 1 (B[i := ?b] ! k) \<and> 0 < r k \<and> 0 < r (k - 1)"
      using Cons.prems(2) k by simp
  qed
  from Cons.IH [OF dist pre] obtain W' B' where
    r: "update_loop alpha ds A (map int is) (W[i := ?w], B[i := ?b]) = ((W', B'), None)"
    and l: "length W' = length W" "length B' = length B"
    and v: "\<forall>j. W' ! j = (if j \<in> set is
                           then ew (-) (W[i := ?w] ! j) (matmul (smul alpha (dl j)) (transpose_m (A ! (j - 1))))
                           else W[i := ?w] ! j) \<and>
                B' ! j = (if j \<in> set is then ew (-) (B[i := ?b] ! j) (smul alpha (dl j))
                          else B[i := ?b] ! j)"
    by auto
  have vals: "W' ! j = (if j \<in> set (i # is)
                           then ew (-) (W ! j) (matmul (smul alpha (dl j)) (transpose_m (A ! (j - 1))))
                           else W ! j) \<and>
              B' ! j = (if j \<in> set (i # is) then ew (-) (B ! j) (smul alpha (dl j)) else B ! j)" for j
  proof (cases "j = i")
    case True
    then show ?thesis using v [rule_format, of j] notin h(2,3) by simp
  next
    case False
    then show ?thesis using v [rule_format, of j] by simp
  qed
  show ?case
    unfolding step using r l vals by blast
qed

lemma backprop_ok:
  assumes cons: "consistent layers W B" and x: "is_mat (nat (layers ! 0)) 1 xi"
    and y: "is_mat (nat (layers ! L)) 1 yi" and L: "L = length layers - 1" and two: "2 \<le> length layers"
  shows "\<exists>Z A ds. forward_pass W B xi False = Inr (Full Z A) \<and> fwd_ok layers Z A \<and>
           backprop (int L) xi yi (W, B) = Inr (ds, A) \<and>
           (\<forall>i. 1 \<le> i \<and> i \<le> L \<longrightarrow> ds (int i) = Some (spec_delta W Z A yi L i))"
proof -
  from forward_pass_full [OF cons x] obtain Z A where
    fp: "forward_pass W B xi False = Inr (Full Z A)" by blast
  have ok: "fwd_ok layers Z A" by (rule forward_pass_fwd_ok [OF cons x fp])
  have Ll: "1 \<le> L" "L < length layers" using L two by simp_all
  have lA: "length A = length layers" and lZ: "length Z = length layers"
    using ok by (simp_all add: fwd_ok_def)
  from ok Ll obtain z where z: "Z ! L = Arr z" "is_mat (nat (layers ! L)) 1 z"
    unfolding fwd_ok_def by blast
  have a: "is_mat (nat (layers ! L)) 1 (A ! L)" using ok Ll unfolding fwd_ok_def by blast
  have gA: "py_get A (int L) = Inr (A ! L)" using Ll lA by (simp add: py_get_nat)
  have gZ: "py_get Z (int L) = Inr (Arr z)" using Ll lZ z by (simp add: py_get_nat)
  have sub: "bc2 (-) (A ! L) yi = Inr (ew (-) (A ! L) yi)" using a y by (rule bc2_same)
  have subsh: "is_mat (nat (layers ! L)) 1 (ew (-) (A ! L) yi)" using a y by (rule is_mat_ew)
  have mul: "bc2 (*) (ew (-) (A ! L) yi) (d_sigmoid z) = Inr (ew (*) (ew (-) (A ! L) yi) (d_sigmoid z))"
    using subsh is_mat_d_sigmoid [OF z(2)] by (rule bc2_same)
  have out: "ew (*) (ew (-) (A ! L) yi) (d_sigmoid z) = spec_delta W Z A yi L L"
    using z(1) by (simp add: spec_delta.simps [of W Z A yi L L] arr_of_def)
  let ?ds0 = "(Map.empty :: deltas)(int L \<mapsto> spec_delta W Z A yi L L)"
  have ds0: "\<forall>i. L \<le> i \<and> i \<le> L \<longrightarrow> ?ds0 (int i) = Some (spec_delta W Z A yi L i)"
    by auto
  from delta_loop_spec [OF cons ok y L Ll(1) le_refl ds0] obtain ds where
    dl: "delta_loop W Z (map int (rev [1..<L])) ?ds0 = Inr ds"
    and dv: "\<forall>i. 1 \<le> i \<and> i \<le> L \<longrightarrow> ds (int i) = Some (spec_delta W Z A yi L i)"
    by blast
  have "backprop (int L) xi yi (W, B) = Inr (ds, A)"
    using dl by (simp add: backprop_def fp gA sub gZ d_sigmoid_obj_def mul out)
  then show ?thesis using fp ok dv by blast
qed

lemma sgd_step_ok:
  assumes cons: "consistent layers W B" and x: "is_mat (nat (layers ! 0)) 1 xi"
    and y: "is_mat (nat (layers ! L)) 1 yi" and L: "L = length layers - 1" and two: "2 \<le> length layers"
  shows "\<exists>Z A ds W' B'.
           forward_pass W B xi False = Inr (Full Z A) \<and>
           backprop (int L) xi yi (W, B) = Inr (ds, A) \<and>
           (\<forall>i. 1 \<le> i \<and> i \<le> L \<longrightarrow> ds (int i) = Some (spec_delta W Z A yi L i)) \<and>
           sgd_step (int L) alpha xi yi (W, B) = ((W', B'), None) \<and>
           length W' = length W \<and> length B' = length B \<and>
           (\<forall>j. W' ! j = (if 1 \<le> j \<and> j \<le> L
                   then ew (-) (W ! j)
                          (matmul (smul alpha (spec_delta W Z A yi L j)) (transpose_m (A ! (j - 1))))
                   else W ! j) \<and>
                B' ! j = (if 1 \<le> j \<and> j \<le> L
                   then ew (-) (B ! j) (smul alpha (spec_delta W Z A yi L j))
                   else B ! j)) \<and>
           consistent layers W' B'"
proof -
  from backprop_ok [OF cons x y L two] obtain Z A ds where
    fp: "forward_pass W B xi False = Inr (Full Z A)" and ok: "fwd_ok layers Z A"
    and bp: "backprop (int L) xi yi (W, B) = Inr (ds, A)"
    and dv: "\<forall>i. 1 \<le> i \<and> i \<le> L \<longrightarrow> ds (int i) = Some (spec_delta W Z A yi L i)"
    by blast
  have lW: "length W = length layers" and lB: "length B = length layers"
    using cons by (simp_all add: consistent_def)
  have lA: "length A = length layers" using ok by (simp add: fwd_ok_def)
  define r where "r = (\<lambda>i. nat (layers ! i))"
  define dl where "dl = spec_delta W Z A yi L"
  have pre: "\<forall>i\<in>set [1..<Suc L]. 1 \<le> i \<and> i < length W \<and> i < length B \<and> i \<le> length A \<and>
           ds (int i) = Some (dl i) \<and> is_mat (r i) 1 (dl i) \<and>
           is_mat (r (i - 1)) 1 (A ! (i - 1)) \<and> is_mat (r i) (r (i - 1)) (W ! i) \<and>
           is_mat (r i) 1 (B ! i) \<and> 0 < r i \<and> 0 < r (i - 1)"
  proof
    fix i assume "i \<in> set [1..<Suc L]"
    then have i: "1 \<le> i" "i \<le> L" "i < length layers" using L two by auto
    note sh = consistentD [OF cons i(1) i(3)]
    have "is_mat (r i) 1 (dl i)"
      unfolding r_def dl_def by (rule spec_delta_shape [OF cons ok y L i(1) i(2)])
    moreover have "is_mat (r (i - 1)) 1 (A ! (i - 1))"
      using ok i unfolding fwd_ok_def r_def by simp
    ultimately show "1 \<le> i \<and> i < length W \<and> i < length B \<and> i \<le> length A \<and>
           ds (int i) = Some (dl i) \<and> is_mat (r i) 1 (dl i) \<and>
           is_mat (r (i - 1)) 1 (A ! (i - 1)) \<and> is_mat (r i) (r (i - 1)) (W ! i) \<and>
           is_mat (r i) 1 (B ! i) \<and> 0 < r i \<and> 0 < r (i - 1)"
      using i sh lW lB lA dv unfolding r_def dl_def by simp
  qed
  have dist: "distinct [1..<Suc L]" by simp
  from update_loop_ok [OF dist pre, of alpha] obtain W' B' where
    ul: "update_loop alpha ds A (map int [1..<Suc L]) (W, B) = ((W', B'), None)"
    and l: "length W' = length W" "length B' = length B"
    and v: "\<forall>j. W' ! j = (if j \<in> set [1..<Suc L]
                           then ew (-) (W ! j) (matmul (smul alpha (dl j)) (transpose_m (A ! (j - 1))))
                           else W ! j) \<and>
                B' ! j = (if j \<in> set [1..<Suc L] then ew (-) (B ! j) (smul alpha (dl j)) else B ! j)"
    by blast
  have nat_eq: "nat (int L + 1) = Suc L" by simp
  have sgd: "sgd_step (int L) alpha xi yi (W, B) = ((W', B'), None)"
    using ul by (simp add: sgd_step_def bp nat_eq)
  have vals: "\<forall>j. W' ! j = (if 1 \<le> j \<and> j \<le> L
                   then ew (-) (W ! j)
                          (matmul (smul alpha (spec_delta W Z A yi L j)) (transpose_m (A ! (j - 1))))
                   else W ! j) \<and>
                B' ! j = (if 1 \<le> j \<and> j \<le> L
                   then ew (-) (B ! j) (smul alpha (spec_delta W Z A yi L j))
                   else B ! j)"
  proof
    fix j
    have "j \<in> set [1..<Suc L] \<longleftrightarrow> 1 \<le> j \<and> j \<le> L" by auto
    then show "W' ! j = (if 1 \<le> j \<and> j \<le> L
                   then ew (-) (W ! j)
                          (matmul (smul alpha (spec_delta W Z A yi L j)) (transpose_m (A ! (j - 1))))
                   else W ! j) \<and>
                B' ! j = (if 1 \<le> j \<and> j \<le> L
                   then ew (-) (B ! j) (smul alpha (spec_delta W Z A yi L j))
                   else B ! j)"
      using v [rule_format, of j] unfolding dl_def by simp
  qed
  have cons': "consistent layers W' B'"
  proof -
    have "is_mat (nat (layers ! i)) (nat (layers ! (i - 1))) (W' ! i) \<and>
          is_mat (nat (layers ! i)) 1 (B' ! i)" if "i \<in> set [1..<length layers]" for i
    proof -
      have i: "1 \<le> i" "i \<le> L" "i < length layers" using that L by auto
      note sh = consistentD [OF cons i(1) i(3)]
      have d: "is_mat (nat (layers ! i)) 1 (spec_delta W Z A yi L i)"
        by (rule spec_delta_shape [OF cons ok y L i(1) i(2)])
      have sd: "is_mat (nat (layers ! i)) 1 (smul alpha (spec_delta W Z A yi L i))"
        using d by (rule is_mat_smul)
      have a: "is_mat (nat (layers ! (i - 1))) 1 (A ! (i - 1))"
        using ok i unfolding fwd_ok_def by simp
      have ta: "is_mat 1 (nat (layers ! (i - 1))) (transpose_m (A ! (i - 1)))"
        using a sh(4) by (rule is_mat_transpose)
      have g: "is_mat (nat (layers ! i)) (nat (layers ! (i - 1)))
                 (matmul (smul alpha (spec_delta W Z A yi L i)) (transpose_m (A ! (i - 1))))"
        using sd ta by (rule is_mat_matmul) simp
      have "is_mat (nat (layers ! i)) (nat (layers ! (i - 1)))
              (ew (-) (W ! i) (matmul (smul alpha (spec_delta W Z A yi L i)) (transpose_m (A ! (i - 1)))))"
        using sh(1) g by (rule is_mat_ew)
      moreover have "is_mat (nat (layers ! i)) 1 (ew (-) (B ! i) (smul alpha (spec_delta W Z A yi L i)))"
        using sh(2) sd by (rule is_mat_ew)
      ultimately show ?thesis using vals i by simp
    qed
    then show ?thesis
      using cons l by (simp add: consistent_def list_all_iff)
  qed
  show ?thesis
    using fp bp dv sgd l vals cons' by blast
qed

text \<open>
  Claim C1. For a network consistent with a topology of at least two layers and a
  training pair of matching shapes, one stochastic gradient step runs the forward pass
  to \<open>Z\<close>, \<open>A\<close>; fills the dictionary \<open>deltas\<close> with exactly the error signals of the
  specification's recurrence, from \<open>L\<close> down to 1; and returns without an exception
  with \<open>W[i]\<close> replaced by \<open>W[i] - alpha delta[i] A[i-1]^T\<close> and \<open>B[i]\<close> by
  \<open>B[i] - alpha delta[i]\<close> for every \<open>i\<close> from 1 to \<open>L\<close>, the deltas and activations
  being those of the weights before the step. The placeholders at index 0 are untouched.
\<close>

theorem sgd_step_correct:
  assumes "consistent layers W B" and "2 \<le> length layers" and "L = length layers - 1"
    and "is_mat (nat (layers ! 0)) 1 xi" and "is_mat (nat (layers ! L)) 1 yi"
  shows "\<exists>Z A ds W' B'.
           forward_pass W B xi False = Inr (Full Z A) \<and>
           backprop (int L) xi yi (W, B) = Inr (ds, A) \<and>
           (\<forall>i. 1 \<le> i \<and> i \<le> L \<longrightarrow> ds (int i) = Some (spec_delta W Z A yi L i)) \<and>
           sgd_step (int L) alpha xi yi (W, B) = ((W', B'), None) \<and>
           length W' = length W \<and> length B' = length B \<and>
           (\<forall>i. 1 \<le> i \<and> i \<le> L \<longrightarrow>
              W' ! i = ew (-) (W ! i)
                         (matmul (smul alpha (spec_delta W Z A yi L i)) (transpose_m (A ! (i - 1)))) \<and>
              B' ! i = ew (-) (B ! i) (smul alpha (spec_delta W Z A yi L i))) \<and>
           W' ! 0 = W ! 0 \<and> B' ! 0 = B ! 0"
proof -
  from sgd_step_ok [OF assms(1,4,5,3,2), of alpha] obtain Z A ds W' B' where
    h: "forward_pass W B xi False = Inr (Full Z A)"
       "backprop (int L) xi yi (W, B) = Inr (ds, A)"
       "\<forall>i. 1 \<le> i \<and> i \<le> L \<longrightarrow> ds (int i) = Some (spec_delta W Z A yi L i)"
       "sgd_step (int L) alpha xi yi (W, B) = ((W', B'), None)"
       "length W' = length W" "length B' = length B"
    and v: "\<forall>j. W' ! j = (if 1 \<le> j \<and> j \<le> L
                   then ew (-) (W ! j)
                          (matmul (smul alpha (spec_delta W Z A yi L j)) (transpose_m (A ! (j - 1))))
                   else W ! j) \<and>
                B' ! j = (if 1 \<le> j \<and> j \<le> L
                   then ew (-) (B ! j) (smul alpha (spec_delta W Z A yi L j))
                   else B ! j)"
    by blast
  have v1: "\<forall>i. 1 \<le> i \<and> i \<le> L \<longrightarrow>
              W' ! i = ew (-) (W ! i)
                         (matmul (smul alpha (spec_delta W Z A yi L i)) (transpose_m (A ! (i - 1)))) \<and>
              B' ! i = ew (-) (B ! i) (smul alpha (spec_delta W Z A yi L i))"
    using v by simp
  have v0: "W' ! 0 = W ! 0 \<and> B' ! 0 = B ! 0" using v [rule_format, of 0] by simp
  show ?thesis using h v1 v0 by blast
qed

lemma ex3_consistent: "consistent [1, 1, 1] ex_W3 ex_B3"
  by (simp add: consistent_def ex_W3_def ex_B3_def is_mat_def upt_rec)

lemma ex3_forward: "forward_pass ex_W3 ex_B3 [[0]] False = Inr (Full ex_Z3 ex_A3)"
  by (simp add: ex_W3_def ex_B3_def ex_Z3_def ex_A3_def forward_pass_def upt_rec py_get_def
      np_matmul_def matmul_def ncols_def col_def dot_def bc2_def bc1_def sigmoid_def)

theorem sgd_step_correct_witness:
  "\<exists>W' B'. sgd_step 2 (1 / 10) [[0]] [[1]] (ex_W3, ex_B3) = ((W', B'), None) \<and>
     W' ! 1 = ew (-) (ex_W3 ! 1)
               (matmul (smul (1 / 10) (spec_delta ex_W3 ex_Z3 ex_A3 [[1]] 2 1)) (transpose_m (ex_A3 ! 0))) \<and>
     B' ! 1 = ew (-) (ex_B3 ! 1) (smul (1 / 10) (spec_delta ex_W3 ex_Z3 ex_A3 [[1]] 2 1)) \<and>
     W' ! 2 = ew (-) (ex_W3 ! 2)
               (matmul (smul (1 / 10) (spec_delta ex_W3 ex_Z3 ex_A3 [[1]] 2 2)) (transpose_m (ex_A3 ! 1))) \<and>
     B' ! 2 = ew (-) (ex_B3 ! 2) (smul (1 / 10) (spec_delta ex_W3 ex_Z3 ex_A3 [[1]] 2 2))"
proof -
  have a: "2 \<le> length [1, 1, 1 :: int]" "(2::nat) = length [1, 1, 1 :: int] - 1"
    "is_mat (nat ([1, 1, 1] ! 0)) 1 [[0]]" "is_mat (nat ([1, 1, 1] ! 2)) 1 [[1]]"
    by (simp_all add: is_mat_def)
  from sgd_step_correct [OF ex3_consistent a, of "1 / 10"] obtain Z A W' B' where
    fp: "forward_pass ex_W3 ex_B3 [[0]] False = Inr (Full Z A)"
    and s: "sgd_step (int 2) (1 / 10) [[0]] [[1]] (ex_W3, ex_B3) = ((W', B'), None)"
    and v: "\<forall>i. 1 \<le> i \<and> i \<le> 2 \<longrightarrow>
              W' ! i = ew (-) (ex_W3 ! i)
                         (matmul (smul (1 / 10) (spec_delta ex_W3 Z A [[1]] 2 i)) (transpose_m (A ! (i - 1)))) \<and>
              B' ! i = ew (-) (ex_B3 ! i) (smul (1 / 10) (spec_delta ex_W3 Z A [[1]] 2 i))"
    by blast
  have ZA: "Z = ex_Z3" "A = ex_A3" using fp ex3_forward by simp_all
  have "sgd_step 2 (1 / 10) [[0]] [[1]] (ex_W3, ex_B3) = ((W', B'), None)" using s by simp
  then show ?thesis
    using v [rule_format, of 1] v [rule_format, of 2] ZA by auto
qed

section \<open>Training and the loss history\<close>

lemma example_loop_ok:
  assumes two: "2 \<le> length layers" and L: "L = length layers - 1"
    and cons: "consistent layers W B"
    and ps: "\<forall>p\<in>set ps. is_mat (nat (layers ! 0)) 1 (fst p) \<and> is_mat (nat (layers ! L)) 1 (snd p)"
  shows "\<exists>W' B'. example_loop (int L) alpha ps (W, B) = ((W', B'), None) \<and> consistent layers W' B'"
  using cons ps
proof (induction ps arbitrary: W B)
  case Nil
  then show ?case by simp
next
  case (Cons p ps)
  obtain xi yi where p: "p = (xi, yi)" by (cases p)
  have x: "is_mat (nat (layers ! 0)) 1 xi" and y: "is_mat (nat (layers ! L)) 1 yi"
    using Cons.prems(2) p by simp_all
  from sgd_step_ok [OF Cons.prems(1) x y L two, of alpha] obtain W1 B1 where
    s: "sgd_step (int L) alpha xi yi (W, B) = ((W1, B1), None)" and c1: "consistent layers W1 B1"
    by blast
  have rest: "\<forall>p\<in>set ps. is_mat (nat (layers ! 0)) 1 (fst p) \<and> is_mat (nat (layers ! L)) 1 (snd p)"
    using Cons.prems(2) by simp
  from Cons.IH [OF c1 rest] show ?case using s p by simp
qed

lemma MSE_loop_ok:
  assumes L: "L = length layers - 1" and ten: "10 \<le> layers ! L"
    and cons: "consistent layers W B"
    and ps: "\<forall>p\<in>set ps. is_mat (nat (layers ! 0)) 1 (fst p) \<and> is_mat (nat (layers ! L)) 1 (snd p)"
  shows "\<exists>c. MSE_loop W B ps (cost, m) = Inr (c, m + length ps)"
  using ps
proof (induction ps arbitrary: cost m)
  case Nil
  then show ?case by simp
next
  case (Cons p ps)
  obtain xi yi where p: "p = (xi, yi)" by (cases p)
  have x: "is_mat (nat (layers ! 0)) 1 xi" and y: "is_mat (nat (layers ! L)) 1 yi"
    using Cons.prems p by simp_all
  from forward_pass_full [OF cons x] obtain Z A where
    fp: "forward_pass W B xi False = Inr (Full Z A)" by blast
  have ne: "layers \<noteq> []" using cons by (simp add: consistent_def)
  have a: "is_mat (nat (layers ! L)) 1 (last A)"
    using forward_pass_last [OF cons x fp] ne L by (simp add: last_conv_nth)
  have v: "forward_pass W B xi True = Inr (Vec (last A))"
    using forward_pass_modes [of W B xi] fp by simp
  have "mse (last A) yi = Inr (0.5 * (\<Sum>j<10. (last A ! j ! 0 - yi ! j ! 0)\<^sup>2))"
    using a y ten by (intro mse_cols_ten) (simp_all add: is_mat_def)
  then obtain c where c: "mse (last A) yi = Inr c" by blast
  have rest: "\<forall>p\<in>set ps. is_mat (nat (layers ! 0)) 1 (fst p) \<and> is_mat (nat (layers ! L)) 1 (snd p)"
    using Cons.prems by simp
  from Cons.IH [OF rest, of "cost + c" "m + 1"] show ?case using p v c by simp
qed

lemma MSE_ok:
  assumes L: "L = length layers - 1" and ten: "10 \<le> layers ! L"
    and cons: "consistent layers W B"
    and ps: "\<forall>p\<in>set (zip X y). is_mat (nat (layers ! 0)) 1 (fst p) \<and> is_mat (nat (layers ! L)) 1 (snd p)"
    and ne: "zip X y \<noteq> []"
  shows "\<exists>c. MSE W B X y = Inr c"
proof -
  from MSE_loop_ok [OF L ten cons ps, of 0 0] obtain c where
    "MSE_loop W B (zip X y) (0, 0) = Inr (c, 0 + length (zip X y))" by blast
  moreover have "0 + length (zip X y) \<noteq> 0" using ne by simp
  ultimately show ?thesis by (simp add: MSE_def)
qed

lemma epoch_loop_ok:
  assumes two: "2 \<le> length layers" and L: "L = length layers - 1" and ten: "10 \<le> layers ! L"
    and ps: "\<forall>p\<in>set (zip X y). is_mat (nat (layers ! 0)) 1 (fst p) \<and> is_mat (nat (layers ! L)) 1 (snd p)"
    and ne: "zip X y \<noteq> []"
    and cons: "consistent layers (self_W net) (self_B net)"
    and es: "self_errors net = Some es0"
  shows "\<exists>net'. epoch_loop k (int L) alpha X y net = (net', None) \<and>
           consistent layers (self_W net') (self_B net')"
  using cons es
proof (induction k arbitrary: net es0)
  case 0
  then show ?case by simp
next
  case (Suc k)
  from example_loop_ok [OF two L Suc.prems(1) ps, of alpha] obtain W' B' where
    e: "example_loop (int L) alpha (zip X y) (self_W net, self_B net) = ((W', B'), None)"
    and c': "consistent layers W' B'" by blast
  from MSE_ok [OF L ten c' ps ne] obtain c where c: "MSE W' B' X y = Inr c" by blast
  let ?net = "net\<lparr>self_W := W', self_B := B', self_errors := Some (es0 @ [c])\<rparr>"
  have "consistent layers (self_W ?net) (self_B ?net)" using c' by simp
  moreover have "self_errors ?net = Some (es0 @ [c])" by simp
  ultimately obtain net' where
    "epoch_loop k (int L) alpha X y ?net = (net', None)"
    "consistent layers (self_W net') (self_B net')"
    using Suc.IH by blast
  then show ?case using e c Suc.prems(2) by simp
qed

lemma train_ok:
  assumes two: "2 \<le> length (self_layers net)" and ten: "10 \<le> last (self_layers net)"
    and cons: "consistent (self_layers net) (self_W net) (self_B net)"
    and ps: "\<forall>p\<in>set (zip X y). is_mat (nat (self_layers net ! 0)) 1 (fst p) \<and>
                               is_mat (nat (last (self_layers net))) 1 (snd p)"
    and ne: "zip X y \<noteq> []"
  shows "\<exists>net'. train net X y alpha epochs = (net', None) \<and>
           consistent (self_layers net) (self_W net') (self_B net')"
proof -
  define L where "L = length (self_layers net) - 1"
  have nel: "self_layers net \<noteq> []" using two by auto
  have last: "last (self_layers net) = self_layers net ! L"
    using nel by (simp add: L_def last_conv_nth)
  have ten': "10 \<le> self_layers net ! L" using ten last by simp
  have ps': "\<forall>p\<in>set (zip X y). is_mat (nat (self_layers net ! 0)) 1 (fst p) \<and>
                               is_mat (nat (self_layers net ! L)) 1 (snd p)"
    using ps last by simp
  from MSE_ok [OF L_def ten' cons ps' ne] obtain c where
    c: "MSE (self_W net) (self_B net) X y = Inr c" by blast
  let ?net = "net\<lparr>self_errors := Some [c]\<rparr>"
  have "consistent (self_layers net) (self_W ?net) (self_B ?net)" using cons by simp
  moreover have "self_errors ?net = Some [c]" by simp
  ultimately obtain net' where
    "epoch_loop (nat epochs) (int L) alpha X y ?net = (net', None)"
    "consistent (self_layers net) (self_W net') (self_B net')"
    using epoch_loop_ok [OF two L_def ten' ps' ne] by blast
  moreover have "int (length (self_layers net)) - 1 = int L" using nel by (simp add: L_def Suc_leI of_nat_diff)
  ultimately show ?thesis using c by (simp add: train_def)
qed

lemma epoch_loop_history:
  assumes "epoch_loop k L alpha X y net = (net', None)"
    and "self_errors net = Some es0" and "es0 \<noteq> []"
    and "MSE (self_W net) (self_B net) X y = Inr (last es0)"
  shows "\<exists>es. self_errors net' = Some es \<and> length es = length es0 + k \<and>
           take (length es0) es = es0 \<and> MSE (self_W net') (self_B net') X y = Inr (last es)"
  using assms
proof (induction k arbitrary: net es0)
  case 0
  then show ?case by auto
next
  case (Suc k)
  obtain W' B' r where e: "example_loop L alpha (zip X y) (self_W net, self_B net) = ((W', B'), r)"
    by (metis surj_pair)
  have r: "r = None" using Suc.prems(1) e by (cases r) simp_all
  obtain c where c: "MSE W' B' X y = Inr c"
    using Suc.prems(1) e r by (cases "MSE W' B' X y") simp_all
  let ?net = "net\<lparr>self_W := W', self_B := B', self_errors := Some (es0 @ [c])\<rparr>"
  have run: "epoch_loop k L alpha X y ?net = (net', None)"
    using Suc.prems(1,2) e r c by simp
  have "\<exists>es. self_errors net' = Some es \<and> length es = length (es0 @ [c]) + k \<and>
           take (length (es0 @ [c])) es = es0 @ [c] \<and>
           MSE (self_W net') (self_B net') X y = Inr (last es)"
    by (rule Suc.IH [OF run]) (simp_all add: c)
  then obtain es where es: "self_errors net' = Some es" "length es = length (es0 @ [c]) + k"
    "take (length (es0 @ [c])) es = es0 @ [c]"
    "MSE (self_W net') (self_B net') X y = Inr (last es)" by blast
  have "take (length es0) (take (length (es0 @ [c])) es) = es0" using es(3) by simp
  then have "take (length es0) es = es0" by (simp add: min_def)
  then show ?case using es by auto
qed

lemma train_history:
  assumes "train net X y alpha epochs = (net', None)"
  shows "\<exists>es. self_errors net' = Some es \<and> length es = nat epochs + 1 \<and>
           MSE (self_W net) (self_B net) X y = Inr (hd es) \<and>
           MSE (self_W net') (self_B net') X y = Inr (last es)"
proof -
  obtain c where c: "MSE (self_W net) (self_B net) X y = Inr c"
    using assms by (cases "MSE (self_W net) (self_B net) X y") (simp_all add: train_def)
  let ?net = "net\<lparr>self_errors := Some [c]\<rparr>"
  have run: "epoch_loop (nat epochs) (int (length (self_layers net)) - 1) alpha X y ?net = (net', None)"
    using assms c by (simp add: train_def)
  have "\<exists>es. self_errors net' = Some es \<and> length es = length [c] + nat epochs \<and>
           take (length [c]) es = [c] \<and> MSE (self_W net') (self_B net') X y = Inr (last es)"
    by (rule epoch_loop_history [OF run]) (simp_all add: c)
  then obtain es where es: "self_errors net' = Some es" "length es = length [c] + nat epochs"
    "take (length [c]) es = [c]" "MSE (self_W net') (self_B net') X y = Inr (last es)" by blast
  have "hd es = c" using es(3) by (cases es) simp_all
  then show ?thesis using es c by auto
qed

lemma train_forgets_history:
  assumes "snd (train net X y alpha epochs) = None"
  shows "train (net\<lparr>self_errors := h\<rparr>) X y alpha epochs = train net X y alpha epochs"
proof (cases "MSE (self_W net) (self_B net) X y")
  case (Inl e)
  then show ?thesis using assms by (simp add: train_def)
next
  case (Inr c)
  then show ?thesis by (simp add: train_def)
qed

lemma ex10_consistent: "consistent (self_layers ex_net10) (self_W ex_net10) (self_B ex_net10)"
  by (simp add: ex_net10_def consistent_def ex_zeros10_def is_mat_def upt_rec)

lemma ex10_facts:
  "2 \<le> length (self_layers ex_net10)" "10 \<le> last (self_layers ex_net10)"
  "\<forall>p\<in>set (zip [[[1]]] [ex_onehot10]). is_mat (nat (self_layers ex_net10 ! 0)) 1 (fst p) \<and>
                               is_mat (nat (last (self_layers ex_net10))) 1 (snd p)"
  "zip [[[1::real]]] [ex_onehot10] \<noteq> []"
  by (simp_all add: ex_net10_def ex_onehot10_def is_mat_def)

lemma train_layers: "self_layers (fst (train net X y alpha epochs)) = self_layers net"
  by (simp add: train_def epoch_loop_layers split: sum.splits)

lemma ex10_trained:
  "snd (train ex_net10 [[[1]]] [ex_onehot10] (1 / 10) 1) = None"
  "consistent (self_layers ex_net10) (self_W ex_net10_trained) (self_B ex_net10_trained)"
  "self_layers ex_net10_trained = self_layers ex_net10"
  using train_ok [OF ex10_facts(1,2) ex10_consistent ex10_facts(3,4), of "1 / 10" 1]
  by (auto simp: ex_net10_trained_def train_layers)

lemma epoch_loop_split:
  "epoch_loop (j + k) L alpha X y net = (net', None) \<Longrightarrow>
     \<exists>n1. epoch_loop j L alpha X y net = (n1, None) \<and> epoch_loop k L alpha X y n1 = (net', None)"
proof (induction j arbitrary: net)
  case 0
  then show ?case by simp
next
  case (Suc j)
  obtain W' B' r where e: "example_loop L alpha (zip X y) (self_W net, self_B net) = ((W', B'), r)"
    by (metis surj_pair)
  have r: "r = None" using Suc.prems e by (cases r) simp_all
  obtain c where c: "MSE W' B' X y = Inr c"
    using Suc.prems e r by (cases "MSE W' B' X y") simp_all
  obtain es where es: "self_errors net = Some es"
    using Suc.prems e r c by (cases "self_errors net") simp_all
  let ?net = "net\<lparr>self_W := W', self_B := B', self_errors := Some (es @ [c])\<rparr>"
  have "epoch_loop (j + k) L alpha X y ?net = (net', None)"
    using Suc.prems e r c es by simp
  from Suc.IH [OF this] show ?case using e r c es by simp
qed

lemma train_prefix:
  assumes t: "train net X y alpha epochs = (net', None)" and es: "self_errors net' = Some es"
    and k: "k \<le> nat epochs"
  shows "\<exists>netk. train net X y alpha (int k) = (netk, None) \<and>
           self_errors netk = Some (take (k + 1) es) \<and>
           MSE (self_W netk) (self_B netk) X y = Inr (es ! k)"
proof -
  obtain c where c: "MSE (self_W net) (self_B net) X y = Inr c"
    using t by (cases "MSE (self_W net) (self_B net) X y") (simp_all add: train_def)
  let ?net = "net\<lparr>self_errors := Some [c]\<rparr>"
  let ?L = "int (length (self_layers net)) - 1"
  have "epoch_loop (k + (nat epochs - k)) ?L alpha X y ?net = (net', None)"
    using t c k by (simp add: train_def)
  from epoch_loop_split [OF this] obtain netk where
    r1: "epoch_loop k ?L alpha X y ?net = (netk, None)"
    and r2: "epoch_loop (nat epochs - k) ?L alpha X y netk = (net', None)" by blast
  have "\<exists>es. self_errors netk = Some es \<and> length es = length [c] + k \<and>
           take (length [c]) es = [c] \<and> MSE (self_W netk) (self_B netk) X y = Inr (last es)"
    by (rule epoch_loop_history [OF r1]) (simp_all add: c)
  then obtain ek where ek: "self_errors netk = Some ek" "length ek = k + 1"
    "MSE (self_W netk) (self_B netk) X y = Inr (last ek)" by auto
  have nek: "ek \<noteq> []" using ek(2) by auto
  have "\<exists>es. self_errors net' = Some es \<and> length es = length ek + (nat epochs - k) \<and>
           take (length ek) es = ek \<and> MSE (self_W net') (self_B net') X y = Inr (last es)"
    by (rule epoch_loop_history [OF r2 ek(1) nek ek(3)])
  then have tk: "take (k + 1) es = ek" using es ek(2) by auto
  have "last ek = ek ! k" using nek ek(2) by (simp add: last_conv_nth)
  also have "\<dots> = es ! k" using tk [symmetric] by simp
  finally have "last ek = es ! k" .
  moreover have "train net X y alpha (int k) = (netk, None)" using r1 c by (simp add: train_def)
  ultimately show ?thesis using ek tk by simp
qed

text \<open>
  Claim C6, as the code has it. Construction creates no loss history (the attribute
  does not exist before the first call of \<open>train\<close>). Every call of \<open>train\<close> that
  returns leaves a history of exactly \<open>max(epochs, 0) + 1\<close> entries: the dataset loss
  before any update, then the dataset loss after each epoch (entry \<open>k\<close> is the loss of
  the parameters that training for \<open>k\<close> epochs produces). The call starts the history
  afresh: its result does not depend on what the history held before.
\<close>

theorem loss_history_per_call:
  "(DenseNetwork_init g p layers = Inr (net0, p') \<longrightarrow> self_errors net0 = None) \<and>
   (train net X y alpha epochs = (net', None) \<longrightarrow>
      (\<exists>es. self_errors net' = Some es \<and> length es = nat epochs + 1 \<and>
         MSE (self_W net) (self_B net) X y = Inr (hd es) \<and>
         (\<forall>k. k \<le> nat epochs \<longrightarrow>
            (\<exists>netk. train net X y alpha (int k) = (netk, None) \<and>
               self_errors netk = Some (take (k + 1) es) \<and>
               MSE (self_W netk) (self_B netk) X y = Inr (es ! k)))) \<and>
      train (net\<lparr>self_errors := h\<rparr>) X y alpha epochs = (net', None))"
proof (intro conjI impI)
  assume "DenseNetwork_init g p layers = Inr (net0, p')"
  then show "self_errors net0 = None"
    by (auto simp: DenseNetwork_init_def ebind_eq_Inr)
next
  assume t: "train net X y alpha epochs = (net', None)"
  from train_history [OF t] obtain es where
    es: "self_errors net' = Some es" "length es = nat epochs + 1"
    "MSE (self_W net) (self_B net) X y = Inr (hd es)" by blast
  show "\<exists>es. self_errors net' = Some es \<and> length es = nat epochs + 1 \<and>
         MSE (self_W net) (self_B net) X y = Inr (hd es) \<and>
         (\<forall>k. k \<le> nat epochs \<longrightarrow>
            (\<exists>netk. train net X y alpha (int k) = (netk, None) \<and>
               self_errors netk = Some (take (k + 1) es) \<and>
               MSE (self_W netk) (self_B netk) X y = Inr (es ! k)))"
    using es train_prefix [OF t es(1)] by blast
next
  assume t: "train net X y alpha epochs = (net', None)"
  then have "snd (train net X y alpha epochs) = None" by simp
  from train_forgets_history [OF this, of h] t
  show "train (net\<lparr>self_errors := h\<rparr>) X y alpha epochs = (net', None)" by simp
qed

theorem loss_history_per_call_witness:
  "DenseNetwork_init (\<lambda>n. real n) 0 [2, 1] =
     Inr (\<lparr>self_layers = [2, 1], self_W = [[[0]], [[0, 1]]], self_B = [[[0]], [[2]]],
           self_errors = None\<rparr>, 3) \<and>
   snd (train ex_net10 [[[1]]] [ex_onehot10] (1 / 10) 2) = None \<and>
   (\<exists>es. self_errors (fst (train ex_net10 [[[1]]] [ex_onehot10] (1 / 10) 2)) = Some es \<and>
         length es = 3 \<and> hd es = 5 / 4) \<and>
   train (ex_net10\<lparr>self_errors := Some [7, 8, 9]\<rparr>) [[[1]]] [ex_onehot10] (1 / 10) 2 =
     train ex_net10 [[[1]]] [ex_onehot10] (1 / 10) 2"
proof -
  let ?n0 = "\<lparr>self_layers = [2, 1], self_W = [[[0]], [[0, 1]]], self_B = [[[0]], [[2]]],
              self_errors = None\<rparr>"
  have i: "DenseNetwork_init (\<lambda>n. real n) 0 [2, 1] = Inr (?n0, 3)"
    by (simp add: DenseNetwork_init_def initialize_weights_def upt_rec py_get_def randn_def
        he_scale_def mscale_def)
  from train_ok [OF ex10_facts(1,2) ex10_consistent ex10_facts(3,4), of "1 / 10" 2]
  obtain net' where t: "train ex_net10 [[[1]]] [ex_onehot10] (1 / 10) 2 = (net', None)" by blast
  from loss_history_per_call [of "\<lambda>n. real n" 0 "[2, 1]" ?n0 3 ex_net10 "[[[1]]]" "[ex_onehot10]"
      "1 / 10" 2 net' "Some [7, 8, 9]"] i t
  obtain es where es: "self_errors net' = Some es" "length es = 3"
    "MSE (self_W ex_net10) (self_B ex_net10) [[[1]]] [ex_onehot10] = Inr (hd es)"
    and f: "train (ex_net10\<lparr>self_errors := Some [7, 8, 9]\<rparr>) [[[1]]] [ex_onehot10] (1 / 10) 2 =
            (net', None)"
    by auto
  have "MSE (self_W ex_net10) (self_B ex_net10) [[[1]]] [ex_onehot10] = Inr (5 / 4)"
    by (simp add: MSE_def ex_net10_def ex_zeros10_def ex_onehot10_def forward_pass_def upt_rec
        py_get_def np_matmul_def matmul_def ncols_def col_def dot_def bc2_def bc1_def sigmoid_def
        mse_def power2_eq_square)
  then have "hd es = 5 / 4" using es(3) by simp
  then show ?thesis using i t es f by simp
qed

text \<open>
  The claim as stated fails on a second call. A first call with one epoch leaves two
  entries; a second call with \<open>epochs = 0\<close> on the network so trained returns with a
  history of one entry, where the claim requires the two earlier entries and one new
  one. Before the first call the network \<open>ex_net10\<close> has no history at all.
\<close>

theorem loss_history_reset_counterexample:
  "snd (train ex_net10 [[[1]]] [ex_onehot10] (1 / 10) 1) = None \<and>
   (\<exists>es1. self_errors ex_net10_trained = Some es1 \<and> length es1 = 2) \<and>
   snd (train ex_net10_trained [[[1]]] [ex_onehot10] (1 / 10) 0) = None \<and>
   (\<exists>es2. self_errors (fst (train ex_net10_trained [[[1]]] [ex_onehot10] (1 / 10) 0)) = Some es2 \<and>
      length es2 = 1) \<and>
   self_errors ex_net10 = None"
proof -
  let ?t1 = "train ex_net10 [[[1]]] [ex_onehot10] (1 / 10) 1"
  have t1: "?t1 = (ex_net10_trained, None)"
    using ex10_trained(1) by (simp add: ex_net10_trained_def prod_eq_iff)
  from train_history [OF t1] have h1: "\<exists>es1. self_errors ex_net10_trained = Some es1 \<and> length es1 = 2"
    by auto
  have f: "2 \<le> length (self_layers ex_net10_trained)" "10 \<le> last (self_layers ex_net10_trained)"
    "\<forall>p\<in>set (zip [[[1]]] [ex_onehot10]). is_mat (nat (self_layers ex_net10_trained ! 0)) 1 (fst p) \<and>
                               is_mat (nat (last (self_layers ex_net10_trained))) 1 (snd p)"
    "consistent (self_layers ex_net10_trained) (self_W ex_net10_trained) (self_B ex_net10_trained)"
    using ex10_facts(1,2,3) ex10_trained(2) by (simp_all only: ex10_trained(3))
  from train_ok [OF f(1,2,4,3) ex10_facts(4), of "1 / 10" 0]
  obtain n2 where t2: "train ex_net10_trained [[[1]]] [ex_onehot10] (1 / 10) 0 = (n2, None)" by blast
  from train_history [OF t2] have h2: "\<exists>es2. self_errors n2 = Some es2 \<and> length es2 = 1" by auto
  show ?thesis using ex10_trained(1) h1 t2 h2 by (simp add: ex_net10_def)
qed

end
